theory Spec2Isabelle
  imports Main
begin

section \<open>Data model of \<open>detector/helpers/detection_results.go\<close>\<close>

text \<open>
  The package collects what the detectors of a run report about each file, counts the
  reports, and renders them. The embedding below follows the Go source function by
  function. Conventions:

  \<^item> Go strings are byte sequences and \<open>len\<close> counts bytes; \<open>string\<close> is \<open>char list\<close>
    with 8-bit characters, so \<open>length\<close> counts bytes as well.
  \<^item> \<open>strings.Compare(a, b) == 0\<close> is equality of the two strings.
  \<^item> The counters are Go \<open>int\<close>s: signed machine integers of 32 or 64 bits, by the
    platform, whose \<open>++\<close> wraps around. They are integers, and \<open>++\<close> is written out
    with its wrap-around for the width of the platform, which is a parameter of the
    model (\<open>intSize\<close> of the \<open>runtime\<close>).
  \<^item> A \<open>[]string\<close> of commits is a slice header (array, offset, length, capacity)
    over a heap of backing arrays. \<open>Fail\<close> and \<open>Warn\<close> store the header they are given
    and \<open>append\<close> to it in place when the capacity suffices, so two findings can share a
    backing array; the heap is part of the state that \<open>Fail\<close> and \<open>Warn\<close> change.
  \<^item> The slices of \<open>Details\<close> and of \<open>ResultsDetails\<close> are reachable from the run
    state only and are modelled by their contents (lists); a nil and an empty one are
    both \<open>[]\<close>.
  \<^item> A nil pointer dereference is the value \<open>Inl NilPointerDereference\<close>.
  \<^item> What the code writes to standard output, to the ignore configuration or to git is
    returned as a list of \<open>effect\<close>s, in order.
\<close>

text \<open>Modelled from the spec: package \<open>talisman/detector/severity\<close> is not part of the
  sources at hand. The spec describes \<open>Severity\<close> as an ordered enumeration
  "(e.g. Low < Medium < High) with a textual rendering"; the code uses \<open>severity.Low\<close>.
  The textual rendering \<open>Severity.String()\<close> is a parameter \<open>str\<close> of the reporting
  functions.\<close>

datatype severity = Low | Medium | High

text \<open>\<open>gitrepo.FilePath\<close> is a string type (the code converts it with \<open>string(...)\<close>).\<close>

type_synonym FilePath = string

subsection \<open>Machine integers and the runtime\<close>

text \<open>What the Go runtime decides and the source does not: the width of \<open>int\<close> (32 or 64
  bits) and the capacity that \<open>append\<close> gives to a new backing array (\<open>growslice\<close>, from
  the old capacity and the length needed).\<close>

datatype platform = Bits32 | Bits64

fun intBits :: "platform \<Rightarrow> nat" where
  "intBits Bits32 = 32"
| "intBits Bits64 = 64"

record runtime =
  intSize :: platform
  growslice :: "nat \<Rightarrow> nat \<Rightarrow> nat"

text \<open>The value of a two's complement integer of the given width that is congruent to
  \<open>x\<close>.\<close>

definition wrapInt :: "nat \<Rightarrow> int \<Rightarrow> int" where
  "wrapInt bits x = (x + 2 ^ (bits - 1)) mod 2 ^ bits - 2 ^ (bits - 1)"

text \<open>\<open>x++\<close> on an \<open>int\<close>.\<close>

definition increment :: "runtime \<Rightarrow> int \<Rightarrow> int" where
  "increment rt x = wrapInt (intBits (intSize rt)) (x + 1)"

subsection \<open>Slices of strings\<close>

text \<open>The heap holds the backing arrays of the \<open>[]string\<close> values, each of a fixed
  length; an address is an index into it. A slice header names its array, the offset of
  its first element in the array, its length and its capacity.\<close>

type_synonym heap = "string list list"

record slice =
  slicePtr :: nat
  sliceOff :: nat
  sliceLen :: nat
  sliceCap :: nat

text \<open>\<open>make([]string, 0)\<close>, and also the nil slice: no element and no capacity, so that
  the array is never read or written.\<close>

definition emptySlice :: slice where
  "emptySlice = \<lparr> slicePtr = 0, sliceOff = 0, sliceLen = 0, sliceCap = 0 \<rparr>"

text \<open>The headers a Go program can hold: the length is within the capacity, and the
  capacity within the array.\<close>

definition validSlice :: "heap \<Rightarrow> slice \<Rightarrow> bool" where
  "validSlice h s \<longleftrightarrow>
     sliceLen s \<le> sliceCap s
     \<and> (sliceCap s = 0
        \<or> (slicePtr s < length h \<and> sliceOff s + sliceCap s \<le> length (h ! slicePtr s)))"

text \<open>The elements of a slice.\<close>

definition sliceVal :: "heap \<Rightarrow> slice \<Rightarrow> string list" where
  "sliceVal h s = take (sliceLen s) (drop (sliceOff s) (h ! slicePtr s))"

definition writeAt :: "string list \<Rightarrow> nat \<Rightarrow> string list \<Rightarrow> string list" where
  "writeAt arr i xs = take i arr @ xs @ drop (i + length xs) arr"

text \<open>The built-in \<open>append(s, t...)\<close>. When the capacity of \<open>s\<close> suffices, the elements of
  \<open>t\<close> (read before anything is written) are written to the array of \<open>s\<close> behind its last
  element and the header gets the new length. Otherwise a new array is allocated that
  holds the elements of \<open>s\<close> and of \<open>t\<close>; its capacity is chosen by the runtime (\<open>g\<close>,
  from the old capacity and the length needed), is at least the length needed, and the
  rest of the array holds the zero value.\<close>

definition append_slice :: "(nat \<Rightarrow> nat \<Rightarrow> nat) \<Rightarrow> heap \<Rightarrow> slice \<Rightarrow> slice \<Rightarrow> heap \<times> slice" where
  "append_slice g h s t =
     (let xs = sliceVal h t; n = sliceLen s + length xs in
      if n \<le> sliceCap s then
        (if xs = [] then (h, s)
         else (h[slicePtr s := writeAt (h ! slicePtr s) (sliceOff s + sliceLen s) xs],
               s\<lparr>sliceLen := n\<rparr>))
      else
        (let newcap = max n (g (sliceCap s) n);
             arr = sliceVal h s @ xs @ replicate (newcap - n) []
         in (h @ [arr],
             \<lparr> slicePtr = length h, sliceOff = 0, sliceLen = n, sliceCap = newcap \<rparr>)))"

subsection \<open>The structs\<close>

record Details =
  Category :: string
  Message :: string
  Commits :: slice
  Severity :: severity

record FailureTypes =
  Filecontent :: int
  Filesize :: int
  Filename :: int
  Warnings :: int
  Ignores :: int

record ResultsSummary =
  Types :: FailureTypes

text \<open>The field \<open>Filename\<close> of \<open>ResultsDetails\<close> is written \<open>ResultsDetails.Filename\<close>,
  the counter of the same name \<open>FailureTypes.Filename\<close>.\<close>

record ResultsDetails =
  Filename :: FilePath
  FailureList :: "Details list"
  WarningList :: "Details list"
  IgnoreList :: "Details list"

text \<open>\<open>talismanrc.Mode\<close> is declared outside the sources at hand; the code only stores
  it and passes it on, so it is a type parameter.\<close>

record 'mode DetectionResults =
  mode :: 'mode
  Summary :: ResultsSummary
  Results :: "ResultsDetails list"

datatype error = NilPointerDereference

section \<open>Lookup and construction\<close>

text \<open>\<open>getResultDetailsForFilePath\<close>: the first ledger whose \<open>Filename\<close> is the path, or
  nil.\<close>

fun findResultDetails :: "ResultsDetails list \<Rightarrow> FilePath \<Rightarrow> ResultsDetails option" where
  "findResultDetails [] fileName = None"
| "findResultDetails (resultDetail # rest) fileName =
     (if ResultsDetails.Filename resultDetail = fileName then Some resultDetail
      else findResultDetails rest fileName)"

definition getResultDetailsForFilePath ::
  "'mode DetectionResults \<Rightarrow> FilePath \<Rightarrow> ResultsDetails option" where
  "getResultDetailsForFilePath r fileName = findResultDetails (Results r) fileName"

definition NewDetectionResults :: "'mode \<Rightarrow> 'mode DetectionResults" where
  "NewDetectionResults m =
     \<lparr> mode = m,
       Summary = \<lparr> Types = \<lparr> Filecontent = 0, Filesize = 0, FailureTypes.Filename = 0,
                              Warnings = 0, Ignores = 0 \<rparr> \<rparr>,
       Results = [] \<rparr>"

section \<open>Accumulation: \<open>Fail\<close>, \<open>Warn\<close>, \<open>Ignore\<close>\<close>

definition sameCategoryAndMessage :: "string \<Rightarrow> string \<Rightarrow> Details \<Rightarrow> bool" where
  "sameCategoryAndMessage category message d \<longleftrightarrow>
     Category d = category \<and> Message d = message"

text \<open>The inner loop of \<open>Fail\<close> and \<open>Warn\<close> (lines 126-131, 152-157), from the first
  entry to the last: every entry with the given category and message gets the commits
  appended, by \<open>append\<close> on the heap as the entries before it have left it.\<close>

fun appendCommits ::
  "(nat \<Rightarrow> nat \<Rightarrow> nat) \<Rightarrow> heap \<Rightarrow> string \<Rightarrow> string \<Rightarrow> slice \<Rightarrow> Details list
     \<Rightarrow> heap \<times> Details list" where
  "appendCommits g h category message commits [] = (h, [])"
| "appendCommits g h category message commits (d # ds) =
     (if sameCategoryAndMessage category message d then
        (case append_slice g h (Commits d) commits of
           (h1, s1) \<Rightarrow>
             (case appendCommits g h1 category message commits ds of
                (h2, ds') \<Rightarrow> (h2, d\<lparr>Commits := s1\<rparr> # ds')))
      else
        (case appendCommits g h category message commits ds of
           (h2, ds') \<Rightarrow> (h2, d # ds')))"

text \<open>The inner loop followed by the append of lines 132-134 (158-160): when no entry
  matched, a new one is added at the end, with the slice header it was given.\<close>

definition recordDetails ::
  "(nat \<Rightarrow> nat \<Rightarrow> nat) \<Rightarrow> heap \<Rightarrow> string \<Rightarrow> string \<Rightarrow> slice \<Rightarrow> severity \<Rightarrow> Details list
     \<Rightarrow> heap \<times> Details list" where
  "recordDetails g h category message commits sev ds =
     (let isEntryPresentForGivenCategoryAndMessage =
            list_ex (sameCategoryAndMessage category message) ds
      in case appendCommits g h category message commits ds of
           (h', ds') \<Rightarrow>
             (h', if \<not> isEntryPresentForGivenCategoryAndMessage
                  then ds' @ [\<lparr> Category = category, Message = message, Commits = commits,
                                Severity = sev \<rparr>]
                  else ds'))"

text \<open>The outer loop of \<open>Fail\<close> and \<open>Warn\<close> (lines 122-136, 148-162), from the first ledger
  to the last: \<open>body\<close> is what is done to a ledger of the path.\<close>

fun forLedgers ::
  "(heap \<Rightarrow> ResultsDetails \<Rightarrow> heap \<times> ResultsDetails) \<Rightarrow> heap \<Rightarrow> FilePath
     \<Rightarrow> ResultsDetails list \<Rightarrow> heap \<times> ResultsDetails list" where
  "forLedgers body h filePath [] = (h, [])"
| "forLedgers body h filePath (rd # rds) =
     (if ResultsDetails.Filename rd = filePath then
        (case body h rd of
           (h1, rd1) \<Rightarrow>
             (case forLedgers body h1 filePath rds of (h2, rds') \<Rightarrow> (h2, rd1 # rds')))
      else
        (case forLedgers body h filePath rds of (h2, rds') \<Rightarrow> (h2, rd # rds')))"

definition updateResultsSummary ::
  "runtime \<Rightarrow> 'mode DetectionResults \<Rightarrow> string \<Rightarrow> 'mode DetectionResults" where
  "updateResultsSummary rt r category =
     (let t = Types (Summary r) in
      if category = ''filecontent'' then
        r\<lparr>Summary := \<lparr> Types = t\<lparr>Filecontent := increment rt (Filecontent t)\<rparr> \<rparr>\<rparr>
      else if category = ''filename'' then
        r\<lparr>Summary := \<lparr> Types = t\<lparr>FailureTypes.Filename :=
                                         increment rt (FailureTypes.Filename t)\<rparr> \<rparr>\<rparr>
      else if category = ''filesize'' then
        r\<lparr>Summary := \<lparr> Types = t\<lparr>Filesize := increment rt (Filesize t)\<rparr> \<rparr>\<rparr>
      else r)"

text \<open>\<open>Fail\<close> and \<open>Warn\<close> take and return the heap next to the run state.\<close>

definition Fail ::
  "runtime \<Rightarrow> heap \<times> 'mode DetectionResults \<Rightarrow> FilePath \<Rightarrow> string \<Rightarrow> string \<Rightarrow> slice
     \<Rightarrow> severity \<Rightarrow> heap \<times> 'mode DetectionResults" where
  "Fail rt w filePath category message commits sev =
     (case w of (h, r) \<Rightarrow>
        (let isFilePresentInResults =
               list_ex (\<lambda>rd. ResultsDetails.Filename rd = filePath) (Results r)
         in case forLedgers
                   (\<lambda>h0 rd. case recordDetails (growslice rt) h0 category message commits sev
                                    (FailureList rd) of
                               (h1, ds) \<Rightarrow> (h1, rd\<lparr>FailureList := ds\<rparr>))
                   h filePath (Results r) of
              (h', rs) \<Rightarrow>
                (let failureDetails = \<lparr> Category = category, Message = message,
                                         Commits = commits, Severity = sev \<rparr>;
                     rs' = (if \<not> isFilePresentInResults
                            then rs @ [\<lparr> Filename = filePath, FailureList = [failureDetails],
                                         WarningList = [], IgnoreList = [] \<rparr>]
                            else rs)
                 in (h', updateResultsSummary rt (r\<lparr>Results := rs'\<rparr>) category))))"

definition Warn ::
  "runtime \<Rightarrow> heap \<times> 'mode DetectionResults \<Rightarrow> FilePath \<Rightarrow> string \<Rightarrow> string \<Rightarrow> slice
     \<Rightarrow> severity \<Rightarrow> heap \<times> 'mode DetectionResults" where
  "Warn rt w filePath category message commits sev =
     (case w of (h, r) \<Rightarrow>
        (let isFilePresentInResults =
               list_ex (\<lambda>rd. ResultsDetails.Filename rd = filePath) (Results r)
         in case forLedgers
                   (\<lambda>h0 rd. case recordDetails (growslice rt) h0 category message commits sev
                                    (WarningList rd) of
                               (h1, ds) \<Rightarrow> (h1, rd\<lparr>WarningList := ds\<rparr>))
                   h filePath (Results r) of
              (h', rs) \<Rightarrow>
                (let warningDetails = \<lparr> Category = category, Message = message,
                                         Commits = commits, Severity = sev \<rparr>;
                     rs' = (if \<not> isFilePresentInResults
                            then rs @ [\<lparr> Filename = filePath, FailureList = [],
                                         WarningList = [warningDetails], IgnoreList = [] \<rparr>]
                            else rs);
                     t = Types (Summary r)
                 in (h', r\<lparr>Results := rs',
                             Summary := \<lparr> Types = t\<lparr>Warnings := increment rt (Warnings t)\<rparr> \<rparr>\<rparr>))))"

text \<open>The ignore entry built at lines 188 and 194.\<close>

definition ignoreDetails :: "string \<Rightarrow> Details" where
  "ignoreDetails category =
     \<lparr> Category = category, Message = '''', Commits = emptySlice, Severity = Low \<rparr>"

text \<open>\<open>Ignore\<close> neither reads nor writes a backing array.\<close>

definition Ignore ::
  "runtime \<Rightarrow> 'mode DetectionResults \<Rightarrow> FilePath \<Rightarrow> string \<Rightarrow> 'mode DetectionResults" where
  "Ignore rt r filePath category =
     (let isFilePresentInResults =
            list_ex (\<lambda>rd. ResultsDetails.Filename rd = filePath) (Results r);
          rs = map (\<lambda>rd. if ResultsDetails.Filename rd = filePath
                          then (let isEntryPresentForGivenCategory =
                                      list_ex (\<lambda>d. Category d = category) (IgnoreList rd)
                                in if \<not> isEntryPresentForGivenCategory
                                   then rd\<lparr>IgnoreList := IgnoreList rd @ [ignoreDetails category]\<rparr>
                                   else rd)
                          else rd) (Results r);
          rs' = (if \<not> isFilePresentInResults
                 then rs @ [\<lparr> Filename = filePath, FailureList = [], WarningList = [],
                              IgnoreList = [ignoreDetails category] \<rparr>]
                 else rs);
          t = Types (Summary r)
      in r\<lparr>Results := rs',
           Summary := \<lparr> Types = t\<lparr>Ignores := increment rt (Ignores t)\<rparr> \<rparr>\<rparr>)"

section \<open>Queries\<close>

definition HasFailures :: "'mode DetectionResults \<Rightarrow> bool" where
  "HasFailures r \<longleftrightarrow>
     Filesize (Types (Summary r)) > 0 \<or> FailureTypes.Filename (Types (Summary r)) > 0
       \<or> Filecontent (Types (Summary r)) > 0"

definition HasIgnores :: "'mode DetectionResults \<Rightarrow> bool" where
  "HasIgnores r \<longleftrightarrow> Ignores (Types (Summary r)) > 0"

definition HasWarnings :: "'mode DetectionResults \<Rightarrow> bool" where
  "HasWarnings r \<longleftrightarrow> Warnings (Types (Summary r)) > 0"

definition HasDetectionMessages :: "'mode DetectionResults \<Rightarrow> bool" where
  "HasDetectionMessages r \<longleftrightarrow> HasWarnings r \<or> HasFailures r \<or> HasIgnores r"

definition Successful :: "'mode DetectionResults \<Rightarrow> bool" where
  "Successful r \<longleftrightarrow> \<not> HasFailures r"

definition GetFailures :: "'mode DetectionResults \<Rightarrow> FilePath \<Rightarrow> Details list" where
  "GetFailures r fileName =
     (case getResultDetailsForFilePath r fileName of
        None \<Rightarrow> []
      | Some results \<Rightarrow> FailureList results)"

section \<open>Reporting\<close>

abbreviation NL :: char where "NL \<equiv> CHR 0x0A"
abbreviation ESC :: char where "ESC \<equiv> CHR 0x1B"

text \<open>The body of the range loops of \<open>ReportFileFailures\<close> and \<open>ReportFileWarnings\<close>
  (lines 369-372 and 383-386). The loop variable \<open>detail\<close> is a \<open>Details\<close> value of its
  own, assigned from the list element; the assignment to \<open>detail.Message\<close> changes that
  variable and nothing else. \<open>Message[:75]\<close> and \<open>Message[75:147]\<close> are in range, since
  they are evaluated only when the message has more than 150 bytes.\<close>

definition reportRow :: "(severity \<Rightarrow> string) \<Rightarrow> FilePath \<Rightarrow> Details \<Rightarrow> string list" where
  "reportRow str filePath detail0 =
     (let detail = (if length (Message detail0) > 150
                    then detail0\<lparr>Message := take 75 (Message detail0) @ [NL]
                                     @ drop 75 (take 147 (Message detail0)) @ ''...''\<rparr>
                    else detail0)
      in [filePath, Message detail, str (Severity detail)])"

text \<open>The reporting functions are methods on \<open>*DetectionResults\<close>; they return the run
  state they leave behind next to their result. Line 365 (379) reads a field through the
  pointer returned by \<open>getResultDetailsForFilePath\<close> without a nil check.\<close>

definition ReportFileFailures ::
  "(severity \<Rightarrow> string) \<Rightarrow> 'mode DetectionResults \<Rightarrow> FilePath
     \<Rightarrow> error + ('mode DetectionResults \<times> string list list)" where
  "ReportFileFailures str r filePath =
     (case getResultDetailsForFilePath r filePath of
        None \<Rightarrow> Inl NilPointerDereference
      | Some results \<Rightarrow>
          (let failureList = FailureList results;
               data = (if length failureList > 0
                       then map (reportRow str filePath) failureList else [])
           in Inr (r, data)))"

definition ReportFileWarnings ::
  "(severity \<Rightarrow> string) \<Rightarrow> 'mode DetectionResults \<Rightarrow> FilePath
     \<Rightarrow> error + ('mode DetectionResults \<times> string list list)" where
  "ReportFileWarnings str r filePath =
     (case getResultDetailsForFilePath r filePath of
        None \<Rightarrow> Inl NilPointerDereference
      | Some results \<Rightarrow>
          (let warningList = WarningList results;
               data = (if length warningList > 0
                       then map (reportRow str filePath) warningList else [])
           in Inr (r, data)))"

text \<open>Modelled from the spec: \<open>utility.UniqueItems\<close> is not part of the sources at hand.
  The spec asks for a "case-sensitive exact string dedup, order-preserving": each string
  stays at its first occurrence.\<close>

fun UniqueItems :: "string list \<Rightarrow> string list" where
  "UniqueItems [] = []"
| "UniqueItems (x # xs) = x # UniqueItems (filter (\<lambda>y. y \<noteq> x) xs)"

text \<open>Modelled from the spec: \<open>talismanrc.IgnoreConfig\<close> and \<open>talismanrc.BuildIgnoreConfig\<close>
  are not part of the sources at hand. The spec gives the candidate entry as
  \<open>{filePath, checksum, extraContent}\<close> and \<open>GetFileName\<close> as its file path.\<close>

record IgnoreConfig =
  entryFilePath :: string
  entryChecksum :: string
  entryExtraContent :: "string list"

definition BuildIgnoreConfig :: "'mode \<Rightarrow> string \<Rightarrow> string \<Rightarrow> string list \<Rightarrow> IgnoreConfig" where
  "BuildIgnoreConfig m fileName checksum extra =
     \<lparr> entryFilePath = fileName, entryChecksum = checksum, entryExtraContent = extra \<rparr>"

definition GetFileName :: "IgnoreConfig \<Rightarrow> string" where
  "GetFileName config = entryFilePath config"

text \<open>What the code does to the outside world. \<open>TableRender header rows\<close> is
  \<open>table.Render()\<close> of the tablewriter with that header and those rows;
  \<open>StdoutYaml\<close> prints the YAML of the entries; \<open>Prompted\<close> is the question put to
  \<open>promptContext.Prompt.Confirm\<close>; \<open>AddIgnores\<close> is
  \<open>talismanrc.ConfigFromFile().AddIgnores\<close>; \<open>GitAddTalismanrc\<close> is the command
  \<open>git add .talismanrc\<close>, whose failure is logged only.\<close>

datatype 'mode effect =
    Stdout string
  | TableRender "string list" "string list list"
  | StdoutYaml "IgnoreConfig list"
  | Prompted string
  | AddIgnores 'mode "IgnoreConfig list"
  | GitAddTalismanrc

text \<open>\<open>prompt.PromptContext\<close>: the flag and the answer of \<open>Prompt.Confirm\<close> to a
  question.\<close>

record PromptContext =
  Interactive :: bool
  Confirm :: "string \<Rightarrow> bool"

definition confirm :: "IgnoreConfig \<Rightarrow> PromptContext \<Rightarrow> 'mode effect list \<times> bool" where
  "confirm config promptContext =
     (let confirmationString =
            ''Do you want to add '' @ GetFileName config @ '' with above checksum in talismanrc ?''
      in ([Stdout [NL], StdoutYaml [config], Prompted confirmationString],
          Confirm promptContext confirmationString))"

fun getUserConfirmation_loop ::
  "IgnoreConfig list \<Rightarrow> PromptContext \<Rightarrow> 'mode effect list \<Rightarrow> IgnoreConfig list
     \<Rightarrow> 'mode effect list \<times> IgnoreConfig list" where
  "getUserConfirmation_loop [] promptContext out confirmed = (out, confirmed)"
| "getUserConfirmation_loop (config # configs) promptContext out confirmed =
     (case confirm config promptContext of
        (out', True) \<Rightarrow>
          getUserConfirmation_loop configs promptContext (out @ out') (confirmed @ [config])
      | (out', False) \<Rightarrow>
          getUserConfirmation_loop configs promptContext (out @ out') confirmed)"

definition getUserConfirmation ::
  "IgnoreConfig list \<Rightarrow> PromptContext \<Rightarrow> 'mode effect list \<times> IgnoreConfig list" where
  "getUserConfirmation configs promptContext =
     getUserConfirmation_loop configs promptContext
       (if length configs \<noteq> 0
        then [Stdout (''==== Interactively adding to talismanrc ===='' @ [NL])] else [])
       []"

definition suggestString :: string where
  "suggestString =
     [NL, ESC] @ ''[33mIf you are absolutely sure that you want to ignore the ''
     @ ''above files from talisman detectors, consider pasting the following format in .talismanrc file''
     @ '' in the project root'' @ [ESC] @ ''[0m'' @ [NL]"

definition printTalismanIgnoreSuggestion :: "IgnoreConfig list \<Rightarrow> 'mode effect list" where
  "printTalismanIgnoreSuggestion entriesToAdd =
     [Stdout (suggestString @ [NL]), StdoutYaml entriesToAdd]"

text \<open>The loop of lines 306-310: one candidate entry per file path, with the checksum of
  that single path. \<open>sha\<close> is \<open>utility.DefaultSHA256Hasher{}.CollectiveSHA256Hash\<close>.\<close>

definition candidateEntries ::
  "(string list \<Rightarrow> string) \<Rightarrow> 'mode \<Rightarrow> string list \<Rightarrow> IgnoreConfig list" where
  "candidateEntries sha m filePaths =
     map (\<lambda>filePath. BuildIgnoreConfig m filePath (sha [filePath]) []) filePaths"

text \<open>\<open>goos\<close> is \<open>runtime.GOOS\<close>. \<open>suggestTalismanRC\<close> reads \<open>r.mode\<close> only.\<close>

definition suggestTalismanRC ::
  "(string list \<Rightarrow> string) \<Rightarrow> string \<Rightarrow> 'mode DetectionResults \<Rightarrow> string list \<Rightarrow> PromptContext
     \<Rightarrow> 'mode effect list" where
  "suggestTalismanRC sha goos r filePaths promptContext =
     (let entriesToAdd = candidateEntries sha (mode r) filePaths in
      if Interactive promptContext \<and> goos \<noteq> ''windows'' then
        (case getUserConfirmation entriesToAdd promptContext of
           (out, confirmedEntries) \<Rightarrow>
             out @ [AddIgnores (mode r) confirmedEntries, GitAddTalismanrc])
      else printTalismanIgnoreSuggestion entriesToAdd)"

text \<open>The loop of \<open>ReportWarnings\<close> (lines 254-260) over the ledgers, with the file paths
  and the rows collected so far.\<close>

fun ReportWarnings_loop ::
  "(severity \<Rightarrow> string) \<Rightarrow> 'mode DetectionResults \<Rightarrow> ResultsDetails list \<Rightarrow> string list
     \<Rightarrow> string list list
     \<Rightarrow> error + ('mode DetectionResults \<times> string list \<times> string list list)" where
  "ReportWarnings_loop str r [] filePathsForWarnings data = Inr (r, filePathsForWarnings, data)"
| "ReportWarnings_loop str r (resultDetails # rest) filePathsForWarnings data =
     (if length (WarningList resultDetails) > 0 then
        (case ReportFileWarnings str r (ResultsDetails.Filename resultDetails) of
           Inl e \<Rightarrow> Inl e
         | Inr (r', warningData) \<Rightarrow>
             ReportWarnings_loop str r' rest
               (filePathsForWarnings @ [ResultsDetails.Filename resultDetails])
               (data @ warningData))
      else ReportWarnings_loop str r rest filePathsForWarnings data)"

definition warningsBanner :: string where
  "warningsBanner =
     [NL, ESC] @ ''[1m'' @ [ESC] @ ''[31mTalisman Warnings:'' @ [ESC] @ ''[0m'' @ [ESC] @ ''[0m''
     @ [NL]"

definition reviewHint :: string where
  "reviewHint =
     [NL, ESC] @ ''[33mPlease review the above file(s) to make sure that no sensitive content is being pushed''
     @ [ESC] @ ''[0m'' @ [NL]"

text \<open>\<open>ReportWarnings\<close> returns the run state, what it printed, and its result string.\<close>

definition ReportWarnings ::
  "(severity \<Rightarrow> string) \<Rightarrow> 'mode DetectionResults
     \<Rightarrow> error + ('mode DetectionResults \<times> 'mode effect list \<times> string)" where
  "ReportWarnings str r =
     (case ReportWarnings_loop str r (Results r) [] [] of
        Inl e \<Rightarrow> Inl e
      | Inr (r', filePathsForWarnings0, data) \<Rightarrow>
          (let result = [];
               filePathsForWarnings = UniqueItems filePathsForWarnings0
           in if Warnings (Types (Summary r')) > 0
              then Inr (r',
                        [Stdout warningsBanner,
                         TableRender [''File'', ''Warnings'', ''Severity''] data],
                        (result @ reviewHint) @ [NL])
              else Inr (r', [], result)))"

text \<open>The loop of \<open>Report\<close> (lines 283-289).\<close>

fun Report_loop ::
  "(severity \<Rightarrow> string) \<Rightarrow> 'mode DetectionResults \<Rightarrow> ResultsDetails list \<Rightarrow> string list
     \<Rightarrow> string list list
     \<Rightarrow> error + ('mode DetectionResults \<times> string list \<times> string list list)" where
  "Report_loop str r [] filePathsForIgnoresAndFailures data =
     Inr (r, filePathsForIgnoresAndFailures, data)"
| "Report_loop str r (resultDetails # rest) filePathsForIgnoresAndFailures data =
     (if length (FailureList resultDetails) > 0 \<or> length (IgnoreList resultDetails) > 0 then
        (case ReportFileFailures str r (ResultsDetails.Filename resultDetails) of
           Inl e \<Rightarrow> Inl e
         | Inr (r', failureData) \<Rightarrow>
             Report_loop str r' rest
               (filePathsForIgnoresAndFailures @ [ResultsDetails.Filename resultDetails])
               (data @ failureData))
      else Report_loop str r rest filePathsForIgnoresAndFailures data)"

definition reportBanner :: string where
  "reportBanner =
     [NL, ESC] @ ''[1m'' @ [ESC] @ ''[31mTalisman Report:'' @ [ESC] @ ''[0m'' @ [ESC] @ ''[0m''
     @ [NL]"

text \<open>\<open>Report\<close> returns the run state, what it did to the outside, and its result string.
  The variable \<open>result\<close> is declared at line 275 and returned at line 300; nothing is
  assigned to it in between.\<close>

definition Report ::
  "(severity \<Rightarrow> string) \<Rightarrow> (string list \<Rightarrow> string) \<Rightarrow> string \<Rightarrow> 'mode DetectionResults
     \<Rightarrow> PromptContext \<Rightarrow> error + ('mode DetectionResults \<times> 'mode effect list \<times> string)" where
  "Report str sha goos r promptContext =
     (case Report_loop str r (Results r) [] [] of
        Inl e \<Rightarrow> Inl e
      | Inr (r', filePathsForIgnoresAndFailures0, data) \<Rightarrow>
          (let result = [];
               filePathsForIgnoresAndFailures = UniqueItems filePathsForIgnoresAndFailures0
           in if HasFailures r'
              then Inr (r',
                        [Stdout reportBanner,
                         TableRender [''File'', ''Errors'', ''Severity''] data,
                         Stdout [NL]]
                        @ suggestTalismanRC sha goos r' filePathsForIgnoresAndFailures
                            promptContext,
                        result)
              else Inr (r', [], result)))"

section \<open>Runs: sequences of calls of the accumulation API\<close>

text \<open>A call names the slice header of its commits; the elements are read from the heap
  when the call is made.\<close>

datatype call =
    FailCall FilePath string string slice severity
  | WarnCall FilePath string string slice severity
  | IgnoreCall FilePath string

fun applyCall ::
  "runtime \<Rightarrow> heap \<times> 'mode DetectionResults \<Rightarrow> call
     \<Rightarrow> heap \<times> 'mode DetectionResults" where
  "applyCall rt w (FailCall filePath category message commits sev) =
     Fail rt w filePath category message commits sev"
| "applyCall rt w (WarnCall filePath category message commits sev) =
     Warn rt w filePath category message commits sev"
| "applyCall rt w (IgnoreCall filePath category) =
     (fst w, Ignore rt (snd w) filePath category)"

definition run ::
  "runtime \<Rightarrow> heap \<times> 'mode DetectionResults \<Rightarrow> call list
     \<Rightarrow> heap \<times> 'mode DetectionResults" where
  "run rt w calls = foldl (applyCall rt) w calls"

fun callSlice :: "call \<Rightarrow> slice" where
  "callSlice (FailCall filePath category message commits sev) = commits"
| "callSlice (WarnCall filePath category message commits sev) = commits"
| "callSlice (IgnoreCall filePath category) = emptySlice"

text \<open>Every call is made with a slice header that is valid in the heap of the moment of
  the call.\<close>

fun callsValid ::
  "runtime \<Rightarrow> heap \<times> 'mode DetectionResults \<Rightarrow> call list \<Rightarrow> bool" where
  "callsValid rt w [] \<longleftrightarrow> True"
| "callsValid rt w (call # calls) \<longleftrightarrow>
     validSlice (fst w) (callSlice call) \<and> callsValid rt (applyCall rt w call) calls"

text \<open>The commits arguments of the calls: for each call, the elements of its slice at
  the moment of the call.\<close>

fun callCommits ::
  "runtime \<Rightarrow> heap \<times> 'mode DetectionResults \<Rightarrow> call list
     \<Rightarrow> string list list" where
  "callCommits rt w [] = []"
| "callCommits rt w (call # calls) =
     sliceVal (fst w) (callSlice call) # callCommits rt (applyCall rt w call) calls"

section \<open>Notions used in the properties\<close>

text \<open>\<open>countedAs k call\<close>: the call is a \<open>Fail\<close> call with category \<open>k\<close>.\<close>

fun countedAs :: "string \<Rightarrow> call \<Rightarrow> bool" where
  "countedAs k (FailCall p c m cs sv) \<longleftrightarrow> c = k"
| "countedAs k (WarnCall p c m cs sv) \<longleftrightarrow> False"
| "countedAs k (IgnoreCall p c) \<longleftrightarrow> False"

text \<open>The integers that an \<open>int\<close> of the platform can hold, and the run states whose
  counters are such integers.\<close>

definition machineInt :: "runtime \<Rightarrow> int \<Rightarrow> bool" where
  "machineInt rt x \<longleftrightarrow>
     - (2 ^ (intBits (intSize rt) - 1)) \<le> x \<and> x < 2 ^ (intBits (intSize rt) - 1)"

definition countersInRange :: "runtime \<Rightarrow> 'mode DetectionResults \<Rightarrow> bool" where
  "countersInRange rt r \<longleftrightarrow>
     machineInt rt (Filecontent (Types (Summary r)))
     \<and> machineInt rt (Filesize (Types (Summary r)))
     \<and> machineInt rt (FailureTypes.Filename (Types (Summary r)))
     \<and> machineInt rt (Warnings (Types (Summary r)))
     \<and> machineInt rt (Ignores (Types (Summary r)))"

text \<open>The well-formedness invariant of the ledgers: within a ledger, no two failures
  share category and message, no two warnings do, and no two ignore entries share a
  category; no two ledgers share a file path.\<close>

definition ledgerWellFormed :: "ResultsDetails \<Rightarrow> bool" where
  "ledgerWellFormed rd \<longleftrightarrow>
     distinct (map (\<lambda>d. (Category d, Message d)) (FailureList rd))
     \<and> distinct (map (\<lambda>d. (Category d, Message d)) (WarningList rd))
     \<and> distinct (map Category (IgnoreList rd))"

definition wellFormed :: "'mode DetectionResults \<Rightarrow> bool" where
  "wellFormed r \<longleftrightarrow>
     distinct (map ResultsDetails.Filename (Results r))
     \<and> (\<forall>rd\<in>set (Results r). ledgerWellFormed rd)"

text \<open>Every ignore entry has an empty message, no commits and severity \<open>Low\<close>.\<close>

definition ignoresBlank :: "'mode DetectionResults \<Rightarrow> bool" where
  "ignoresBlank r \<longleftrightarrow>
     (\<forall>rd\<in>set (Results r). \<forall>d\<in>set (IgnoreList rd).
        Message d = [] \<and> Commits d = emptySlice \<and> Severity d = Low)"

text \<open>What \<open>Ignore\<close> does to a ledger of the path (lines 180-190).\<close>

definition addIgnore :: "string \<Rightarrow> ResultsDetails \<Rightarrow> ResultsDetails" where
  "addIgnore c rd =
     (if c \<in> Category ` set (IgnoreList rd) then rd
      else rd\<lparr>IgnoreList := IgnoreList rd @ [ignoreDetails c]\<rparr>)"

text \<open>The rendering of a message in the words of the spec, with lengths in bytes:
  unmodified up to 150, otherwise the first 75, a line break, the next 72 and an
  ellipsis.\<close>

definition specRendered :: "string \<Rightarrow> string" where
  "specRendered message =
     (if length message \<le> 150 then message
      else take 75 message @ [NL] @ take 72 (drop 75 message) @ ''...'')"

text \<open>The number of characters of a UTF-8 text: its bytes other than the continuation
  bytes \<open>10xxxxxx\<close>.\<close>

definition characterCount :: "string \<Rightarrow> nat" where
  "characterCount message =
     length (filter (\<lambda>b. \<not> (128 \<le> (of_char b :: nat) \<and> (of_char b :: nat) < 192)) message)"

text \<open>The candidate entries shown to the user: every entry whose YAML is printed, in
  order. Without a prompt that is the suggestion printed by
  \<open>printTalismanIgnoreSuggestion\<close>; with a prompt, \<open>confirm\<close> prints each candidate before
  it asks.\<close>

fun entriesOffered :: "'mode effect list \<Rightarrow> IgnoreConfig list" where
  "entriesOffered [] = []"
| "entriesOffered (StdoutYaml entries # out) = entries @ entriesOffered out"
| "entriesOffered (e # out) = entriesOffered out"

text \<open>The end-to-end scenario of the spec: on a fresh run state, one failure for
  \<open>a.pem\<close> (category \<open>filecontent\<close>, message \<open>secret key\<close>) and one ignore for \<open>b.txt\<close>
  (category \<open>filesize\<close>), recorded in this order or in the other.\<close>

definition endToEnd ::
  "runtime \<Rightarrow> heap \<Rightarrow> 'mode \<Rightarrow> slice \<Rightarrow> severity \<Rightarrow> 'mode DetectionResults" where
  "endToEnd rt h mo commits sev =
     snd (run rt (h, NewDetectionResults mo)
            [FailCall ''a.pem'' ''filecontent'' ''secret key'' commits sev,
             IgnoreCall ''b.txt'' ''filesize''])"

definition endToEndIgnoreFirst ::
  "runtime \<Rightarrow> heap \<Rightarrow> 'mode \<Rightarrow> slice \<Rightarrow> severity \<Rightarrow> 'mode DetectionResults" where
  "endToEndIgnoreFirst rt h mo commits sev =
     snd (run rt (h, NewDetectionResults mo)
            [IgnoreCall ''b.txt'' ''filesize'',
             FailCall ''a.pem'' ''filecontent'' ''secret key'' commits sev])"

text \<open>What the reports hold, written without the loops. The ledgers that \<open>Report\<close> and
  \<open>ReportWarnings\<close> visit, and the rows of their tables: for each ledger visited, the
  rows of the first ledger with its path.\<close>

definition reportedLedgers :: "'mode DetectionResults \<Rightarrow> ResultsDetails list" where
  "reportedLedgers r =
     filter (\<lambda>rd. FailureList rd \<noteq> [] \<or> IgnoreList rd \<noteq> []) (Results r)"

definition failureTable :: "(severity \<Rightarrow> string) \<Rightarrow> 'mode DetectionResults \<Rightarrow> string list list" where
  "failureTable str r =
     concat (map (\<lambda>rd. map (reportRow str (ResultsDetails.Filename rd))
                          (GetFailures r (ResultsDetails.Filename rd)))
               (reportedLedgers r))"

definition warnedLedgers :: "'mode DetectionResults \<Rightarrow> ResultsDetails list" where
  "warnedLedgers r = filter (\<lambda>rd. WarningList rd \<noteq> []) (Results r)"

definition firstWarnings :: "'mode DetectionResults \<Rightarrow> FilePath \<Rightarrow> Details list" where
  "firstWarnings r fileName =
     (case getResultDetailsForFilePath r fileName of
        None \<Rightarrow> []
      | Some results \<Rightarrow> WarningList results)"

definition warningTable :: "(severity \<Rightarrow> string) \<Rightarrow> 'mode DetectionResults \<Rightarrow> string list list" where
  "warningTable str r =
     concat (map (\<lambda>rd. map (reportRow str (ResultsDetails.Filename rd))
                          (firstWarnings r (ResultsDetails.Filename rd)))
               (warnedLedgers r))"

text \<open>What the interactive confirmation prints and asks, candidate by candidate, and
  the whole suggestion workflow for a list of candidate entries.\<close>

definition confirmationQuestion :: "IgnoreConfig \<Rightarrow> string" where
  "confirmationQuestion config =
     ''Do you want to add '' @ entryFilePath config @ '' with above checksum in talismanrc ?''"

definition confirmationDialogue :: "IgnoreConfig list \<Rightarrow> 'mode effect list" where
  "confirmationDialogue configs =
     (if configs = [] then []
      else [Stdout (''==== Interactively adding to talismanrc ===='' @ [NL])])
     @ concat (map (\<lambda>config. [Stdout [NL], StdoutYaml [config],
                               Prompted (confirmationQuestion config)]) configs)"

definition suggestionEffects ::
  "string \<Rightarrow> 'mode \<Rightarrow> PromptContext \<Rightarrow> IgnoreConfig list \<Rightarrow> 'mode effect list" where
  "suggestionEffects goos m promptContext entries =
     (if Interactive promptContext \<and> goos \<noteq> ''windows''
      then confirmationDialogue entries
           @ [AddIgnores m (filter (\<lambda>config. Confirm promptContext (confirmationQuestion config))
                              entries),
              GitAddTalismanrc]
      else [Stdout (suggestString @ [NL]), StdoutYaml entries])"

section \<open>Properties\<close>

lemma findResultDetails_None_iff:
  "findResultDetails rs p = None \<longleftrightarrow> p \<notin> ResultsDetails.Filename ` set rs"
  by (induction rs) auto

lemma findResultDetails_Some:
  "findResultDetails rs p = Some rd \<Longrightarrow> ResultsDetails.Filename rd = p \<and> rd \<in> set rs"
  by (induction rs) (auto split: if_splits)

lemma findResultDetails_first:
  "p \<notin> ResultsDetails.Filename ` set pre \<Longrightarrow> ResultsDetails.Filename rd = p \<Longrightarrow>
   findResultDetails (pre @ rd # post) p = Some rd"
  by (induction pre) auto

lemma run_Nil: "run rt w [] = w"
  by (simp add: run_def)

lemma run_Cons: "run rt w (call # calls) = run rt (applyCall rt w call) calls"
  by (simp add: run_def)

lemma length_writeAt:
  "i + length xs \<le> length arr \<Longrightarrow> length (writeAt arr i xs) = length arr"
  by (simp add: writeAt_def)

lemma slice_of_writeAt:
  assumes "off + len \<le> length arr"
  shows "take (len + length xs) (drop off (writeAt arr (off + len) xs))
           = take len (drop off arr) @ xs"
proof -
  have "drop off (writeAt arr (off + len) xs)
          = drop off (take (off + len) arr) @ xs @ drop (off + len + length xs) arr"
    using assms by (simp add: writeAt_def)
  moreover have "drop off (take (off + len) arr) = take len (drop off arr)"
    by (simp add: drop_take)
  moreover have "length (take len (drop off arr)) = len"
    using assms by simp
  ultimately show ?thesis by simp
qed

lemma length_sliceVal: "validSlice h s \<Longrightarrow> length (sliceVal h s) = sliceLen s"
  by (auto simp: validSlice_def sliceVal_def)

lemma append_slice_value:
  assumes "validSlice h s" and "append_slice g h s t = (h', s')"
  shows "validSlice h' s' \<and> sliceVal h' s' = sliceVal h s @ sliceVal h t"
proof (cases "sliceLen s + length (sliceVal h t) \<le> sliceCap s")
  case fits: True
  show ?thesis
  proof (cases "sliceVal h t = []")
    case True
    then show ?thesis using assms fits by (simp add: append_slice_def Let_def)
  next
    case False
    then have pos: "0 < sliceCap s" using fits by (cases "sliceCap s") auto
    then have ptr: "slicePtr s < length h"
      and arr: "sliceOff s + sliceCap s \<le> length (h ! slicePtr s)"
      and len: "sliceLen s \<le> sliceCap s"
      using assms(1) by (auto simp: validSlice_def)
    have h': "h' = h[slicePtr s := writeAt (h ! slicePtr s) (sliceOff s + sliceLen s) (sliceVal h t)]"
      and s': "s' = s\<lparr>sliceLen := sliceLen s + length (sliceVal h t)\<rparr>"
      using assms(2) fits False by (simp_all add: append_slice_def Let_def)
    have inrange: "sliceOff s + sliceLen s + length (sliceVal h t) \<le> length (h ! slicePtr s)"
      using fits arr by simp
    have la: "length (writeAt (h ! slicePtr s) (sliceOff s + sliceLen s) (sliceVal h t))
                = length (h ! slicePtr s)"
      using inrange by (rule length_writeAt)
    have valid: "validSlice h' s'"
      using ptr arr fits la by (simp add: validSlice_def h' s')
    have "sliceOff s + sliceLen s \<le> length (h ! slicePtr s)" using inrange by simp
    then have "take (sliceLen s + length (sliceVal h t))
                 (drop (sliceOff s)
                    (writeAt (h ! slicePtr s) (sliceOff s + sliceLen s) (sliceVal h t)))
               = take (sliceLen s) (drop (sliceOff s) (h ! slicePtr s)) @ sliceVal h t"
      by (rule slice_of_writeAt)
    then have "sliceVal h' s' = sliceVal h s @ sliceVal h t"
      using ptr by (simp add: sliceVal_def h' s')
    then show ?thesis using valid by simp
  qed
next
  case False
  define n where "n = sliceLen s + length (sliceVal h t)"
  define newcap where "newcap = max n (g (sliceCap s) n)"
  define arr where "arr = sliceVal h s @ sliceVal h t @ replicate (newcap - n) []"
  have h': "h' = h @ [arr]"
    and s': "s' = \<lparr> slicePtr = length h, sliceOff = 0, sliceLen = n, sliceCap = newcap \<rparr>"
    using assms(2) False by (simp_all add: append_slice_def Let_def n_def newcap_def arr_def)
  have ls: "length (sliceVal h s) = sliceLen s"
    using assms(1) by (rule length_sliceVal)
  have larr: "length arr = newcap"
    by (simp add: arr_def ls n_def newcap_def)
  have "n \<le> newcap" by (simp add: newcap_def)
  then have valid: "validSlice h' s'"
    by (simp add: validSlice_def h' s' larr)
  have "take n arr = sliceVal h s @ sliceVal h t"
    by (simp add: arr_def n_def ls)
  then have "sliceVal h' s' = sliceVal h s @ sliceVal h t"
    by (simp add: sliceVal_def h' s')
  then show ?thesis using valid by simp
qed


lemma Fail_single_finding:
  assumes res: "Results r = [\<lparr> Filename = p,
                    FailureList = [\<lparr> Category = c, Message = m, Commits = s, Severity = sv0 \<rparr>],
                    WarningList = [], IgnoreList = [] \<rparr>]"
    and valid: "validSlice h s"
  shows "\<exists>h' r' s'. Fail rt (h, r) p c m cs sv = (h', r')
           \<and> Results r' = [\<lparr> Filename = p,
                    FailureList = [\<lparr> Category = c, Message = m, Commits = s', Severity = sv0 \<rparr>],
                    WarningList = [], IgnoreList = [] \<rparr>]
           \<and> validSlice h' s' \<and> sliceVal h' s' = sliceVal h s @ sliceVal h cs"
proof -
  obtain h1 s1 where app: "append_slice (growslice rt) h s cs = (h1, s1)"
    by (cases "append_slice (growslice rt) h s cs") auto
  have vs: "validSlice h1 s1 \<and> sliceVal h1 s1 = sliceVal h s @ sliceVal h cs"
    using valid app by (rule append_slice_value)
  have "Fail rt (h, r) p c m cs sv
          = (h1, updateResultsSummary rt
                   (r\<lparr>Results := [\<lparr> Filename = p,
                      FailureList = [\<lparr> Category = c, Message = m, Commits = s1,
                                        Severity = sv0 \<rparr>],
                      WarningList = [], IgnoreList = [] \<rparr>]\<rparr>) c)"
    by (simp add: Fail_def res recordDetails_def sameCategoryAndMessage_def app Let_def)
  then show ?thesis using vs by (simp add: updateResultsSummary_def Let_def)
qed

lemma run_Fail_single_finding:
  assumes "Results r = [\<lparr> Filename = p,
                    FailureList = [\<lparr> Category = c, Message = m, Commits = s, Severity = sv0 \<rparr>],
                    WarningList = [], IgnoreList = [] \<rparr>]"
    and "validSlice h s"
    and "callsValid rt (h, r) (map (\<lambda>(commits, sev). FailCall p c m commits sev) xs)"
  shows "\<exists>h' r' s'. run rt (h, r) (map (\<lambda>(commits, sev). FailCall p c m commits sev) xs) = (h', r')
           \<and> Results r' = [\<lparr> Filename = p,
                    FailureList = [\<lparr> Category = c, Message = m, Commits = s', Severity = sv0 \<rparr>],
                    WarningList = [], IgnoreList = [] \<rparr>]
           \<and> sliceVal h' s'
               = sliceVal h s
                 @ concat (callCommits rt (h, r)
                             (map (\<lambda>(commits, sev). FailCall p c m commits sev) xs))"
  using assms
proof (induction xs arbitrary: h r s)
  case Nil
  then show ?case by (simp add: run_Nil)
next
  case (Cons x xs)
  obtain cs sv where x: "x = (cs, sv)" by (cases x)
  obtain h1 r1 s1 where step: "Fail rt (h, r) p c m cs sv = (h1, r1)"
    and res1: "Results r1 = [\<lparr> Filename = p,
                    FailureList = [\<lparr> Category = c, Message = m, Commits = s1, Severity = sv0 \<rparr>],
                    WarningList = [], IgnoreList = [] \<rparr>]"
    and valid1: "validSlice h1 s1"
    and val1: "sliceVal h1 s1 = sliceVal h s @ sliceVal h cs"
    using Fail_single_finding[OF Cons.prems(1) Cons.prems(2), of rt cs sv] by blast
  have rest: "callsValid rt (h1, r1) (map (\<lambda>(commits, sev). FailCall p c m commits sev) xs)"
    using Cons.prems(3) by (simp add: x step)
  obtain h' r' s' where
    run: "run rt (h1, r1) (map (\<lambda>(commits, sev). FailCall p c m commits sev) xs) = (h', r')"
    and res': "Results r' = [\<lparr> Filename = p,
                    FailureList = [\<lparr> Category = c, Message = m, Commits = s', Severity = sv0 \<rparr>],
                    WarningList = [], IgnoreList = [] \<rparr>]"
    and val': "sliceVal h' s'
               = sliceVal h1 s1
                 @ concat (callCommits rt (h1, r1)
                             (map (\<lambda>(commits, sev). FailCall p c m commits sev) xs))"
    using Cons.IH[OF res1 valid1 rest] by blast
  show ?case
    using run res' val' val1 by (simp add: x run_Cons step)
qed

lemma Fail_fresh:
  "\<exists>r1. Fail rt (h, NewDetectionResults mo) p c m cs sv = (h, r1)
     \<and> Results r1 = [\<lparr> Filename = p,
                 FailureList = [\<lparr> Category = c, Message = m, Commits = cs, Severity = sv \<rparr>],
                 WarningList = [], IgnoreList = [] \<rparr>]"
  by (simp add: Fail_def NewDetectionResults_def Let_def updateResultsSummary_def)

text \<open>
  C1. On a fresh run state, a non-empty sequence of \<open>Fail\<close> calls with the same path,
  category and message and varying commits (and severities), each made with a valid
  slice: the run state then has one ledger, for the path, whose failure list holds
  exactly one finding; its category and message are those of the calls, its severity
  that of the first call, and the elements of its commits slice are the concatenation,
  in call order, of the commits arguments as they were when each call was made.
\<close>

theorem Fail_same_key_merges:
  assumes "xs \<noteq> []"
    and "callsValid rt (h, NewDetectionResults mo)
           (map (\<lambda>(commits, sev). FailCall p c m commits sev) xs)"
  shows "\<exists>h' r' s'.
           run rt (h, NewDetectionResults mo) (map (\<lambda>(commits, sev). FailCall p c m commits sev) xs)
             = (h', r')
           \<and> Results r' = [\<lparr> Filename = p,
                    FailureList = [\<lparr> Category = c, Message = m, Commits = s',
                                      Severity = snd (hd xs) \<rparr>],
                    WarningList = [], IgnoreList = [] \<rparr>]
           \<and> GetFailures r' p = [\<lparr> Category = c, Message = m, Commits = s',
                                    Severity = snd (hd xs) \<rparr>]
           \<and> sliceVal h' s'
               = concat (callCommits rt (h, NewDetectionResults mo)
                           (map (\<lambda>(commits, sev). FailCall p c m commits sev) xs))"
proof -
  obtain cs sv ys where xs: "xs = (cs, sv) # ys"
    using assms(1) by (cases xs) auto
  obtain r1 where step: "Fail rt (h, NewDetectionResults mo) p c m cs sv = (h, r1)"
    and res1: "Results r1 = [\<lparr> Filename = p,
                 FailureList = [\<lparr> Category = c, Message = m, Commits = cs, Severity = sv \<rparr>],
                 WarningList = [], IgnoreList = [] \<rparr>]"
    using Fail_fresh[of rt h mo p c m cs sv] by blast
  have valid: "validSlice h cs"
    and rest: "callsValid rt (h, r1) (map (\<lambda>(commits, sev). FailCall p c m commits sev) ys)"
    using assms(2) by (simp_all add: xs step)
  obtain h' r' s' where
    run: "run rt (h, r1) (map (\<lambda>(commits, sev). FailCall p c m commits sev) ys) = (h', r')"
    and res': "Results r' = [\<lparr> Filename = p,
                    FailureList = [\<lparr> Category = c, Message = m, Commits = s', Severity = sv \<rparr>],
                    WarningList = [], IgnoreList = [] \<rparr>]"
    and val': "sliceVal h' s'
               = sliceVal h cs
                 @ concat (callCommits rt (h, r1)
                             (map (\<lambda>(commits, sev). FailCall p c m commits sev) ys))"
    using run_Fail_single_finding[OF res1 valid rest] by blast
  have "GetFailures r' p = [\<lparr> Category = c, Message = m, Commits = s', Severity = sv \<rparr>]"
    by (simp add: GetFailures_def getResultDetailsForFilePath_def res')
  then show ?thesis
    using run res' val' by (simp add: xs run_Cons step)
qed


lemmas run_steps =
  run_def NewDetectionResults_def Fail_def Warn_def Ignore_def updateResultsSummary_def
  recordDetails_def sameCategoryAndMessage_def ignoreDetails_def emptySlice_def
  append_slice_def sliceVal_def writeAt_def validSlice_def
  getResultDetailsForFilePath_def GetFailures_def Let_def

lemmas run_eval = run_steps increment_def wrapInt_def

theorem Fail_same_key_merges_witness:
  "fst (run \<lparr> intSize = Bits64, growslice = \<lambda>oldcap n. 2 * n \<rparr>
          ([[''c1'', ''x'', ''x'', ''x''], [''c2'', ''c3'']],
           NewDetectionResults ())
          (map (\<lambda>(commits, sev). FailCall ''a.pem'' ''filecontent'' ''secret key'' commits sev)
             [(\<lparr> slicePtr = 0, sliceOff = 0, sliceLen = 1, sliceCap = 4 \<rparr>, High),
              (\<lparr> slicePtr = 1, sliceOff = 0, sliceLen = 2, sliceCap = 2 \<rparr>, Low),
              (\<lparr> slicePtr = 0, sliceOff = 0, sliceLen = 1, sliceCap = 4 \<rparr>, Medium),
              (\<lparr> slicePtr = 1, sliceOff = 1, sliceLen = 1, sliceCap = 1 \<rparr>, Low)]))
     = [[''c1'', ''c2'', ''c3'', ''c1''], [''c2'', ''c3''],
        [''c1'', ''c2'', ''c3'', ''c1'', ''c3''] @ replicate 5 []]
   \<and> GetFailures
       (snd (run \<lparr> intSize = Bits64, growslice = \<lambda>oldcap n. 2 * n \<rparr>
          ([[''c1'', ''x'', ''x'', ''x''], [''c2'', ''c3'']],
           NewDetectionResults ())
          (map (\<lambda>(commits, sev). FailCall ''a.pem'' ''filecontent'' ''secret key'' commits sev)
             [(\<lparr> slicePtr = 0, sliceOff = 0, sliceLen = 1, sliceCap = 4 \<rparr>, High),
              (\<lparr> slicePtr = 1, sliceOff = 0, sliceLen = 2, sliceCap = 2 \<rparr>, Low),
              (\<lparr> slicePtr = 0, sliceOff = 0, sliceLen = 1, sliceCap = 4 \<rparr>, Medium),
              (\<lparr> slicePtr = 1, sliceOff = 1, sliceLen = 1, sliceCap = 1 \<rparr>, Low)])))
       ''a.pem''
     = [\<lparr> Category = ''filecontent'', Message = ''secret key'',
           Commits = \<lparr> slicePtr = 2, sliceOff = 0, sliceLen = 5, sliceCap = 10 \<rparr>,
           Severity = High \<rparr>]
   \<and> sliceVal [[''c1'', ''c2'', ''c3'', ''c1''], [''c2'', ''c3''],
                [''c1'', ''c2'', ''c3'', ''c1'', ''c3''] @ replicate 5 []]
         \<lparr> slicePtr = 2, sliceOff = 0, sliceLen = 5, sliceCap = 10 \<rparr>
     = [''c1'', ''c2'', ''c3'', ''c1'', ''c3'']
   \<and> callCommits \<lparr> intSize = Bits64, growslice = \<lambda>oldcap n. 2 * n \<rparr>
          ([[''c1'', ''x'', ''x'', ''x''], [''c2'', ''c3'']],
           NewDetectionResults ())
          (map (\<lambda>(commits, sev). FailCall ''a.pem'' ''filecontent'' ''secret key'' commits sev)
             [(\<lparr> slicePtr = 0, sliceOff = 0, sliceLen = 1, sliceCap = 4 \<rparr>, High),
              (\<lparr> slicePtr = 1, sliceOff = 0, sliceLen = 2, sliceCap = 2 \<rparr>, Low),
              (\<lparr> slicePtr = 0, sliceOff = 0, sliceLen = 1, sliceCap = 4 \<rparr>, Medium),
              (\<lparr> slicePtr = 1, sliceOff = 1, sliceLen = 1, sliceCap = 1 \<rparr>, Low)])
     = [[''c1''], [''c2'', ''c3''], [''c1''], [''c3'']]"
  using Fail_same_key_merges
    [where rt = "\<lparr> intSize = Bits64, growslice = \<lambda>oldcap n. 2 * n \<rparr>"
       and h = "[[''c1'', ''x'', ''x'', ''x''], [''c2'', ''c3'']]"
       and mo = "()" and p = "''a.pem''" and c = "''filecontent''" and m = "''secret key''"
       and xs = "[(\<lparr> slicePtr = 0, sliceOff = 0, sliceLen = 1, sliceCap = 4 \<rparr>, High),
              (\<lparr> slicePtr = 1, sliceOff = 0, sliceLen = 2, sliceCap = 2 \<rparr>, Low),
              (\<lparr> slicePtr = 0, sliceOff = 0, sliceLen = 1, sliceCap = 4 \<rparr>, Medium),
              (\<lparr> slicePtr = 1, sliceOff = 1, sliceLen = 1, sliceCap = 1 \<rparr>, Low)]"]
  by (simp add: run_eval)

lemma keys_appendCommits:
  "map (\<lambda>d. (Category d, Message d)) (snd (appendCommits g h c m cs ds))
     = map (\<lambda>d. (Category d, Message d)) ds"
  by (induction ds arbitrary: h) (simp_all add: case_prod_beta)

lemma keys_recordDetails:
  "map (\<lambda>d. (Category d, Message d)) (snd (recordDetails g h c m cs sv ds))
     = (if (c, m) \<in> set (map (\<lambda>d. (Category d, Message d)) ds)
        then map (\<lambda>d. (Category d, Message d)) ds
        else map (\<lambda>d. (Category d, Message d)) ds @ [(c, m)])"
proof -
  have "list_ex (sameCategoryAndMessage c m) ds
          \<longleftrightarrow> (c, m) \<in> set (map (\<lambda>d. (Category d, Message d)) ds)"
    by (auto simp: list_ex_iff sameCategoryAndMessage_def)
  then show ?thesis
    using keys_appendCommits[of g h c m cs ds]
    by (simp add: recordDetails_def Let_def case_prod_beta)
qed

lemma distinct_keys_recordDetails:
  "distinct (map (\<lambda>d. (Category d, Message d)) ds) \<Longrightarrow>
   distinct (map (\<lambda>d. (Category d, Message d)) (snd (recordDetails g h c m cs sv ds)))"
  by (simp add: keys_recordDetails)

lemma forLedgers_names:
  assumes "\<And>h0 rd. ResultsDetails.Filename (snd (body h0 rd)) = ResultsDetails.Filename rd"
  shows "map ResultsDetails.Filename (snd (forLedgers body h p rds))
           = map ResultsDetails.Filename rds"
proof (induction rds arbitrary: h)
  case Nil
  then show ?case by simp
next
  case (Cons rd rds)
  show ?case
  proof (cases "ResultsDetails.Filename rd = p")
    case True
    obtain h1 rd1 where b: "body h rd = (h1, rd1)" by (cases "body h rd") auto
    have "ResultsDetails.Filename rd1 = ResultsDetails.Filename rd"
      using assms[of h rd] b by simp
    then show ?thesis using True b Cons.IH[of h1] by (simp add: case_prod_beta)
  next
    case False
    then show ?thesis using Cons.IH[of h] by (simp add: case_prod_beta)
  qed
qed

lemma forLedgers_preserves:
  assumes "\<And>h0 rd. P rd \<Longrightarrow> P (snd (body h0 rd))"
    and "\<forall>rd\<in>set rds. P rd"
  shows "\<forall>rd\<in>set (snd (forLedgers body h p rds)). P rd"
  using assms(2)
proof (induction rds arbitrary: h)
  case Nil
  then show ?case by simp
next
  case (Cons rd rds)
  have rest: "\<forall>rd\<in>set rds. P rd" and here: "P rd" using Cons.prems by simp_all
  show ?case
  proof (cases "ResultsDetails.Filename rd = p")
    case True
    obtain h1 rd1 where b: "body h rd = (h1, rd1)" by (cases "body h rd") auto
    have "P rd1" using assms(1)[OF here, of h] b by simp
    then show ?thesis using True b Cons.IH[OF rest, of h1] by (simp add: case_prod_beta)
  next
    case False
    then show ?thesis using here Cons.IH[OF rest, of h] by (simp add: case_prod_beta)
  qed
qed

lemma forLedgers_absent:
  "p \<notin> ResultsDetails.Filename ` set rds \<Longrightarrow> forLedgers body h p rds = (h, rds)"
  by (induction rds) auto

text \<open>Every ledger of the path in the result of the loop is the result of the body.\<close>

lemma forLedgers_touched:
  assumes "\<And>h0 rd. ResultsDetails.Filename (snd (body h0 rd)) = ResultsDetails.Filename rd"
    and "rd' \<in> set (snd (forLedgers body h p rds))"
    and "ResultsDetails.Filename rd' = p"
  shows "\<exists>h0 rd. rd' = snd (body h0 rd)"
  using assms(2)
proof (induction rds arbitrary: h)
  case Nil
  then show ?case by simp
next
  case (Cons rd rds)
  show ?case
  proof (cases "ResultsDetails.Filename rd = p")
    case True
    obtain h1 rd1 where b: "body h rd = (h1, rd1)" by (cases "body h rd") auto
    have "rd' = rd1 \<or> rd' \<in> set (snd (forLedgers body h1 p rds))"
      using Cons.prems True b by (auto simp: case_prod_beta)
    then show ?thesis
    proof
      assume "rd' = rd1"
      then have "rd' = snd (body h rd)" using b by simp
      then show ?thesis by blast
    next
      assume "rd' \<in> set (snd (forLedgers body h1 p rds))"
      then show ?thesis by (rule Cons.IH)
    qed
  next
    case False
    then have "rd' = rd \<or> rd' \<in> set (snd (forLedgers body h p rds))"
      using Cons.prems by (auto simp: case_prod_beta)
    then show ?thesis using False assms(3) Cons.IH[of h] by auto
  qed
qed

lemma Results_Fail:
  "Results (snd (Fail rt (h, r) p c m cs sv)) =
     (if p \<in> ResultsDetails.Filename ` set (Results r)
      then snd (forLedgers
                  (\<lambda>h0 rd. case recordDetails (growslice rt) h0 c m cs sv (FailureList rd) of
                              (h1, ds) \<Rightarrow> (h1, rd\<lparr>FailureList := ds\<rparr>))
                  h p (Results r))
      else Results r @ [\<lparr> Filename = p,
             FailureList = [\<lparr> Category = c, Message = m, Commits = cs, Severity = sv \<rparr>],
             WarningList = [], IgnoreList = [] \<rparr>])"
proof (cases "p \<in> ResultsDetails.Filename ` set (Results r)")
  case True
  then have "list_ex (\<lambda>rd. ResultsDetails.Filename rd = p) (Results r)"
    by (auto simp: list_ex_iff)
  then show ?thesis using True
    by (simp add: Fail_def Let_def updateResultsSummary_def case_prod_beta)
next
  case False
  then have "\<not> list_ex (\<lambda>rd. ResultsDetails.Filename rd = p) (Results r)"
    by (auto simp: list_ex_iff)
  then show ?thesis using False
    by (simp add: Fail_def Let_def updateResultsSummary_def forLedgers_absent)
qed

lemma Results_Warn:
  "Results (snd (Warn rt (h, r) p c m cs sv)) =
     (if p \<in> ResultsDetails.Filename ` set (Results r)
      then snd (forLedgers
                  (\<lambda>h0 rd. case recordDetails (growslice rt) h0 c m cs sv (WarningList rd) of
                              (h1, ds) \<Rightarrow> (h1, rd\<lparr>WarningList := ds\<rparr>))
                  h p (Results r))
      else Results r @ [\<lparr> Filename = p, FailureList = [],
             WarningList = [\<lparr> Category = c, Message = m, Commits = cs, Severity = sv \<rparr>],
             IgnoreList = [] \<rparr>])"
proof (cases "p \<in> ResultsDetails.Filename ` set (Results r)")
  case True
  then have "list_ex (\<lambda>rd. ResultsDetails.Filename rd = p) (Results r)"
    by (auto simp: list_ex_iff)
  then show ?thesis using True
    by (simp add: Warn_def Let_def case_prod_beta)
next
  case False
  then have "\<not> list_ex (\<lambda>rd. ResultsDetails.Filename rd = p) (Results r)"
    by (auto simp: list_ex_iff)
  then show ?thesis using False
    by (simp add: Warn_def Let_def forLedgers_absent)
qed

lemma Results_Ignore:
  "Results (Ignore rt r p c) =
     (if p \<in> ResultsDetails.Filename ` set (Results r)
      then map (\<lambda>rd. if ResultsDetails.Filename rd = p then addIgnore c rd else rd) (Results r)
      else Results r @ [\<lparr> Filename = p, FailureList = [], WarningList = [],
             IgnoreList = [ignoreDetails c] \<rparr>])"
proof -
  have "list_ex (\<lambda>d. Category d = c) ds \<longleftrightarrow> c \<in> Category ` set ds" for ds
    by (auto simp: list_ex_iff)
  then show ?thesis
    by (auto simp: Ignore_def Let_def list_ex_iff map_idI addIgnore_def)
qed


lemma wellFormed_forLedgers:
  assumes wf: "wellFormed r"
    and b_wf: "\<And>h0 rd. ledgerWellFormed rd \<Longrightarrow> ledgerWellFormed (snd (body h0 rd))"
    and b_name: "\<And>h0 rd. ResultsDetails.Filename (snd (body h0 rd)) = ResultsDetails.Filename rd"
    and new_wf: "ledgerWellFormed new" and new_name: "ResultsDetails.Filename new = p"
    and res: "Results r' =
       (if p \<in> ResultsDetails.Filename ` set (Results r)
        then snd (forLedgers body h p (Results r))
        else Results r @ [new])"
  shows "wellFormed r'"
proof (cases "p \<in> ResultsDetails.Filename ` set (Results r)")
  case True
  have "map ResultsDetails.Filename (snd (forLedgers body h p (Results r)))
          = map ResultsDetails.Filename (Results r)"
    using b_name by (rule forLedgers_names)
  moreover have "\<forall>rd\<in>set (snd (forLedgers body h p (Results r))). ledgerWellFormed rd"
    using b_wf wf by (intro forLedgers_preserves) (simp_all add: wellFormed_def)
  ultimately show ?thesis
    using wf True by (simp add: wellFormed_def res)
next
  case False
  then show ?thesis
    using wf new_wf new_name by (auto simp: wellFormed_def res)
qed

lemma wellFormed_Fail: "wellFormed r \<Longrightarrow> wellFormed (snd (Fail rt (h, r) p c m cs sv))"
  by (rule wellFormed_forLedgers[where p = p, OF _ _ _ _ _ Results_Fail])
    (simp_all add: ledgerWellFormed_def distinct_keys_recordDetails case_prod_beta)

lemma wellFormed_Warn: "wellFormed r \<Longrightarrow> wellFormed (snd (Warn rt (h, r) p c m cs sv))"
  by (rule wellFormed_forLedgers[where p = p, OF _ _ _ _ _ Results_Warn])
    (simp_all add: ledgerWellFormed_def distinct_keys_recordDetails case_prod_beta)

lemma wellFormed_map:
  assumes wf: "wellFormed r"
    and f_wf: "\<And>rd. ledgerWellFormed rd \<Longrightarrow> ledgerWellFormed (f rd)"
    and f_name: "\<And>rd. ResultsDetails.Filename (f rd) = ResultsDetails.Filename rd"
    and new_wf: "ledgerWellFormed new" and new_name: "ResultsDetails.Filename new = p"
    and res: "Results r' =
       (if p \<in> ResultsDetails.Filename ` set (Results r)
        then map (\<lambda>rd. if ResultsDetails.Filename rd = p then f rd else rd) (Results r)
        else Results r @ [new])"
  shows "wellFormed r'"
proof (cases "p \<in> ResultsDetails.Filename ` set (Results r)")
  case True
  have names: "map ResultsDetails.Filename
                 (map (\<lambda>rd. if ResultsDetails.Filename rd = p then f rd else rd) (Results r))
               = map ResultsDetails.Filename (Results r)"
    by (simp add: f_name)
  show ?thesis
    using wf True f_wf unfolding wellFormed_def res names[symmetric]
    by (auto simp: f_name comp_def)
next
  case False
  then show ?thesis
    using wf new_wf new_name by (auto simp: wellFormed_def res)
qed

lemma wellFormed_Ignore: "wellFormed r \<Longrightarrow> wellFormed (Ignore rt r p c)"
  by (rule wellFormed_map[where p = p and f = "addIgnore c", OF _ _ _ _ _ Results_Ignore])
    (auto simp: ledgerWellFormed_def addIgnore_def ignoreDetails_def)

lemma wellFormed_New: "wellFormed (NewDetectionResults mo)"
  by (simp add: wellFormed_def NewDetectionResults_def)

lemma wellFormed_applyCall: "wellFormed r \<Longrightarrow> wellFormed (snd (applyCall rt (h, r) call))"
  by (cases call) (simp_all add: wellFormed_Fail wellFormed_Warn wellFormed_Ignore)

lemma wellFormed_run: "wellFormed (snd w) \<Longrightarrow> wellFormed (snd (run rt w calls))"
proof (induction calls arbitrary: w)
  case Nil
  then show ?case by (simp add: run_Nil)
next
  case (Cons call calls)
  have "wellFormed (snd (applyCall rt w call))"
    using Cons.prems wellFormed_applyCall[of "snd w" rt "fst w" call] by simp
  then show ?case using Cons.IH by (simp add: run_Cons)
qed

text \<open>
  C6. A fresh run state is well formed, every \<open>Fail\<close>, \<open>Warn\<close> and \<open>Ignore\<close> call keeps a
  well-formed state well formed, and so the state after any sequence of calls on a
  fresh run state is well formed: at most one ledger per file path, no two failures of
  a ledger with the same category and message, the same for its warnings, and at most
  one ignore entry per category.
\<close>

theorem run_wellFormed:
  "wellFormed (NewDetectionResults mo)
   \<and> (wellFormed r \<longrightarrow> wellFormed (snd (applyCall rt (h, r) call)))
   \<and> wellFormed (snd (run rt (h, NewDetectionResults mo) calls))"
proof (intro conjI impI)
  show "wellFormed (NewDetectionResults mo)"
    by (rule wellFormed_New)
  show "wellFormed (snd (applyCall rt (h, r) call))" if "wellFormed r"
    using that by (rule wellFormed_applyCall)
  show "wellFormed (snd (run rt (h, NewDetectionResults mo) calls))"
    by (rule wellFormed_run) (simp add: wellFormed_New)
qed

theorem run_wellFormed_witness:
  "wellFormed (snd (run \<lparr> intSize = Bits64, growslice = \<lambda>oldcap n. 2 * n \<rparr>
     ([[''c1'', ''c2'', ''c3'']], NewDetectionResults ())
     [FailCall ''a.pem'' ''filecontent'' ''secret key''
        \<lparr> slicePtr = 0, sliceOff = 0, sliceLen = 1, sliceCap = 3 \<rparr> High,
      FailCall ''a.pem'' ''filecontent'' ''secret key''
        \<lparr> slicePtr = 0, sliceOff = 1, sliceLen = 1, sliceCap = 2 \<rparr> Low,
      WarnCall ''a.pem'' ''filecontent'' ''secret key'' emptySlice Low,
      WarnCall ''a.pem'' ''filecontent'' ''secret key''
        \<lparr> slicePtr = 0, sliceOff = 2, sliceLen = 1, sliceCap = 1 \<rparr> Medium,
      IgnoreCall ''b.txt'' ''filesize'',
      IgnoreCall ''b.txt'' ''filesize'']))
   \<and> Results (snd (run \<lparr> intSize = Bits64, growslice = \<lambda>oldcap n. 2 * n \<rparr>
     ([[''c1'', ''c2'', ''c3'']], NewDetectionResults ())
     [FailCall ''a.pem'' ''filecontent'' ''secret key''
        \<lparr> slicePtr = 0, sliceOff = 0, sliceLen = 1, sliceCap = 3 \<rparr> High,
      FailCall ''a.pem'' ''filecontent'' ''secret key''
        \<lparr> slicePtr = 0, sliceOff = 1, sliceLen = 1, sliceCap = 2 \<rparr> Low,
      WarnCall ''a.pem'' ''filecontent'' ''secret key'' emptySlice Low,
      WarnCall ''a.pem'' ''filecontent'' ''secret key''
        \<lparr> slicePtr = 0, sliceOff = 2, sliceLen = 1, sliceCap = 1 \<rparr> Medium,
      IgnoreCall ''b.txt'' ''filesize'',
      IgnoreCall ''b.txt'' ''filesize'']))
     = [\<lparr> Filename = ''a.pem'',
          FailureList = [\<lparr> Category = ''filecontent'', Message = ''secret key'',
                            Commits = \<lparr> slicePtr = 0, sliceOff = 0, sliceLen = 2, sliceCap = 3 \<rparr>,
                            Severity = High \<rparr>],
          WarningList = [\<lparr> Category = ''filecontent'', Message = ''secret key'',
                            Commits = \<lparr> slicePtr = 1, sliceOff = 0, sliceLen = 1, sliceCap = 2 \<rparr>,
                            Severity = Low \<rparr>],
          IgnoreList = [] \<rparr>,
        \<lparr> Filename = ''b.txt'', FailureList = [], WarningList = [],
          IgnoreList = [\<lparr> Category = ''filesize'', Message = [], Commits = emptySlice,
                           Severity = Low \<rparr>] \<rparr>]"
  using run_wellFormed
    [where mo = "()" and r = "NewDetectionResults ()" and rt = "\<lparr> intSize = Bits64, growslice = \<lambda>oldcap n. 2 * n \<rparr>"
       and h = "[[''c1'', ''c2'', ''c3'']]" and call = "IgnoreCall ''b.txt'' ''filesize''"
       and calls = "[FailCall ''a.pem'' ''filecontent'' ''secret key''
        \<lparr> slicePtr = 0, sliceOff = 0, sliceLen = 1, sliceCap = 3 \<rparr> High,
      FailCall ''a.pem'' ''filecontent'' ''secret key''
        \<lparr> slicePtr = 0, sliceOff = 1, sliceLen = 1, sliceCap = 2 \<rparr> Low,
      WarnCall ''a.pem'' ''filecontent'' ''secret key'' emptySlice Low,
      WarnCall ''a.pem'' ''filecontent'' ''secret key''
        \<lparr> slicePtr = 0, sliceOff = 2, sliceLen = 1, sliceCap = 1 \<rparr> Medium,
      IgnoreCall ''b.txt'' ''filesize'',
      IgnoreCall ''b.txt'' ''filesize'']"]
  by (simp add: run_eval)

lemma Types_Fail:
  "Types (Summary (snd (Fail rt (h, r) p c m cs sv))) =
     (let t = Types (Summary r) in
      if c = ''filecontent'' then t\<lparr>Filecontent := increment rt (Filecontent t)\<rparr>
      else if c = ''filename''
        then t\<lparr>FailureTypes.Filename := increment rt (FailureTypes.Filename t)\<rparr>
      else if c = ''filesize'' then t\<lparr>Filesize := increment rt (Filesize t)\<rparr>
      else t)"
  by (simp add: Fail_def updateResultsSummary_def Let_def case_prod_beta)

lemma Types_Warn:
  "Types (Summary (snd (Warn rt (h, r) p c m cs sv)))
     = (Types (Summary r))\<lparr>Warnings := increment rt (Warnings (Types (Summary r)))\<rparr>"
  by (simp add: Warn_def Let_def case_prod_beta)

lemma Types_Ignore:
  "Types (Summary (Ignore rt r p c))
     = (Types (Summary r))\<lparr>Ignores := increment rt (Ignores (Types (Summary r)))\<rparr>"
  by (simp add: Ignore_def Let_def)

text \<open>Wrapping is the identity on the integers of the width, and wrapping before an
  addition is the same as wrapping after it.\<close>

lemma wrapInt_id:
  "- (2 ^ (bits - 1)) \<le> x \<Longrightarrow> x < 2 ^ (bits - 1) \<Longrightarrow> 0 < bits \<Longrightarrow> wrapInt bits x = x"
proof -
  assume lo: "- (2 ^ (bits - 1)) \<le> x" and hi: "x < 2 ^ (bits - 1)" and pos: "0 < bits"
  have p: "(2::int) ^ bits = 2 * 2 ^ (bits - 1)"
    using pos by (cases bits) simp_all
  have "0 \<le> x + 2 ^ (bits - 1)" using lo by simp
  moreover have "x + 2 ^ (bits - 1) < 2 ^ bits" using hi p by simp
  ultimately have "(x + 2 ^ (bits - 1)) mod 2 ^ bits = x + 2 ^ (bits - 1)"
    by (rule mod_pos_pos_trivial)
  then show ?thesis by (simp add: wrapInt_def)
qed

lemma wrapInt_add:
  "wrapInt bits (wrapInt bits x + y) = wrapInt bits (x + y)"
proof -
  have 1: "wrapInt bits x + y + 2 ^ (bits - 1) = (x + 2 ^ (bits - 1)) mod 2 ^ bits + y"
    by (simp add: wrapInt_def)
  have 3: "x + 2 ^ (bits - 1) + y = x + y + 2 ^ (bits - 1)"
    by simp
  have "wrapInt bits (wrapInt bits x + y)
          = (wrapInt bits x + y + 2 ^ (bits - 1)) mod 2 ^ bits - 2 ^ (bits - 1)"
    by (rule wrapInt_def)
  also have "\<dots> = ((x + 2 ^ (bits - 1)) mod 2 ^ bits + y) mod 2 ^ bits - 2 ^ (bits - 1)"
    by (simp only: 1)
  also have "\<dots> = (x + 2 ^ (bits - 1) + y) mod 2 ^ bits - 2 ^ (bits - 1)"
    by (simp only: mod_add_left_eq)
  also have "\<dots> = (x + y + 2 ^ (bits - 1)) mod 2 ^ bits - 2 ^ (bits - 1)"
    by (simp only: 3)
  also have "\<dots> = wrapInt bits (x + y)"
    by (rule wrapInt_def[symmetric])
  finally show ?thesis .
qed

lemma wrapInt_idem: "wrapInt bits (wrapInt bits x) = wrapInt bits x"
  using wrapInt_add[of bits x 0] by simp

text \<open>A counter of a run, wrapped, is its first value plus the number of its increments,
  wrapped.\<close>

lemma Filecontent_applyCall:
  "wrapInt (intBits (intSize rt)) (Filecontent (Types (Summary (snd (applyCall rt w call)))))
     = wrapInt (intBits (intSize rt))
         (Filecontent (Types (Summary (snd w)))
          + (if countedAs ''filecontent'' call then 1 else 0))"
  by (cases w; cases call)
    (simp_all add: Types_Fail Types_Warn Types_Ignore Let_def increment_def wrapInt_idem)

lemma Filename_applyCall:
  "wrapInt (intBits (intSize rt))
       (FailureTypes.Filename (Types (Summary (snd (applyCall rt w call)))))
     = wrapInt (intBits (intSize rt))
         (FailureTypes.Filename (Types (Summary (snd w)))
          + (if countedAs ''filename'' call then 1 else 0))"
  by (cases w; cases call)
    (simp_all add: Types_Fail Types_Warn Types_Ignore Let_def increment_def wrapInt_idem)

lemma Filesize_applyCall:
  "wrapInt (intBits (intSize rt)) (Filesize (Types (Summary (snd (applyCall rt w call)))))
     = wrapInt (intBits (intSize rt))
         (Filesize (Types (Summary (snd w)))
          + (if countedAs ''filesize'' call then 1 else 0))"
  by (cases w; cases call)
    (simp_all add: Types_Fail Types_Warn Types_Ignore Let_def increment_def wrapInt_idem)

lemma wrapInt_step:
  assumes "wrapInt b y = wrapInt b (x + d)" and "wrapInt b z = wrapInt b (y + n)"
  shows "wrapInt b z = wrapInt b (x + (d + n))"
proof -
  have "wrapInt b (y + n) = wrapInt b (wrapInt b y + n)" by (simp add: wrapInt_add)
  also have "\<dots> = wrapInt b (wrapInt b (x + d) + n)" using assms(1) by simp
  also have "\<dots> = wrapInt b (x + d + n)" by (simp add: wrapInt_add)
  finally show ?thesis using assms(2) by (simp add: add.assoc)
qed

lemma Filecontent_run:
  "wrapInt (intBits (intSize rt)) (Filecontent (Types (Summary (snd (run rt w calls)))))
     = wrapInt (intBits (intSize rt))
         (Filecontent (Types (Summary (snd w)))
          + int (length (filter (countedAs ''filecontent'') calls)))"
proof (induction calls arbitrary: w)
  case Nil
  then show ?case by (simp add: run_Nil)
next
  case (Cons call calls)
  show ?case
    using wrapInt_step[OF Filecontent_applyCall[of rt w call] Cons.IH[of "applyCall rt w call"]]
    by (simp add: run_Cons)
qed

lemma Filename_run:
  "wrapInt (intBits (intSize rt)) (FailureTypes.Filename (Types (Summary (snd (run rt w calls)))))
     = wrapInt (intBits (intSize rt))
         (FailureTypes.Filename (Types (Summary (snd w)))
          + int (length (filter (countedAs ''filename'') calls)))"
proof (induction calls arbitrary: w)
  case Nil
  then show ?case by (simp add: run_Nil)
next
  case (Cons call calls)
  show ?case
    using wrapInt_step[OF Filename_applyCall[of rt w call] Cons.IH[of "applyCall rt w call"]]
    by (simp add: run_Cons)
qed

lemma Filesize_run:
  "wrapInt (intBits (intSize rt)) (Filesize (Types (Summary (snd (run rt w calls)))))
     = wrapInt (intBits (intSize rt))
         (Filesize (Types (Summary (snd w)))
          + int (length (filter (countedAs ''filesize'') calls)))"
proof (induction calls arbitrary: w)
  case Nil
  then show ?case by (simp add: run_Nil)
next
  case (Cons call calls)
  show ?case
    using wrapInt_step[OF Filesize_applyCall[of rt w call] Cons.IH[of "applyCall rt w call"]]
    by (simp add: run_Cons)
qed

lemma Types_New:
  "Types (Summary (NewDetectionResults mo))
     = \<lparr> Filecontent = 0, Filesize = 0, FailureTypes.Filename = 0, Warnings = 0, Ignores = 0 \<rparr>"
  by (simp add: NewDetectionResults_def)

text \<open>The counters of a run that starts with counters in the range of \<open>int\<close> stay in it.\<close>

lemma intBits_pos: "0 < intBits p"
  by (cases p) simp_all

lemma increment_zero: "increment rt 0 = 1"
  by (cases "intSize rt") (simp_all add: increment_def wrapInt_def)

lemma machineInt_wrapInt: "machineInt rt (wrapInt (intBits (intSize rt)) x)"
proof -
  define b where "b = intBits (intSize rt)"
  have pos: "0 < b" by (simp add: b_def intBits_pos)
  have p: "(2::int) ^ b = 2 * 2 ^ (b - 1)"
    using pos by (cases b) simp_all
  have "0 \<le> (x + 2 ^ (b - 1)) mod 2 ^ b" by simp
  moreover have "(x + 2 ^ (b - 1)) mod 2 ^ b < 2 ^ b" by simp
  ultimately show ?thesis
    using p by (simp add: machineInt_def wrapInt_def b_def[symmetric])
qed

lemma machineInt_increment: "machineInt rt (increment rt x)"
  by (simp add: increment_def machineInt_wrapInt)

lemma machineInt_wrapInt_id: "machineInt rt x \<Longrightarrow> wrapInt (intBits (intSize rt)) x = x"
  by (simp add: machineInt_def wrapInt_id intBits_pos)

lemma countersInRange_New: "countersInRange rt (NewDetectionResults mo)"
  by (simp add: countersInRange_def Types_New machineInt_def)

lemma countersInRange_applyCall:
  "countersInRange rt (snd w) \<Longrightarrow> countersInRange rt (snd (applyCall rt w call))"
  by (cases w; cases call)
    (simp_all add: countersInRange_def Types_Fail Types_Warn Types_Ignore Let_def
       machineInt_increment)

lemma countersInRange_run:
  "countersInRange rt (snd w) \<Longrightarrow> countersInRange rt (snd (run rt w calls))"
proof (induction calls arbitrary: w)
  case Nil
  then show ?case by (simp add: run_Nil)
next
  case (Cons call calls)
  then show ?case by (simp add: run_Cons countersInRange_applyCall)
qed

text \<open>The counters of a run from a fresh state: the number of their increments,
  wrapped.\<close>

lemma Filecontent_fresh:
  "Filecontent (Types (Summary (snd (run rt (h, NewDetectionResults mo) calls))))
     = wrapInt (intBits (intSize rt)) (int (length (filter (countedAs ''filecontent'') calls)))"
proof -
  have "countersInRange rt (snd (run rt (h, NewDetectionResults mo) calls))"
    by (rule countersInRange_run) (simp add: countersInRange_New)
  then have "machineInt rt
      (Filecontent (Types (Summary (snd (run rt (h, NewDetectionResults mo) calls)))))"
    by (simp add: countersInRange_def)
  then show ?thesis
    using Filecontent_run[of rt "(h, NewDetectionResults mo)" calls]
    by (simp add: machineInt_wrapInt_id Types_New)
qed

lemma Filename_fresh:
  "FailureTypes.Filename (Types (Summary (snd (run rt (h, NewDetectionResults mo) calls))))
     = wrapInt (intBits (intSize rt)) (int (length (filter (countedAs ''filename'') calls)))"
proof -
  have "countersInRange rt (snd (run rt (h, NewDetectionResults mo) calls))"
    by (rule countersInRange_run) (simp add: countersInRange_New)
  then have "machineInt rt
      (FailureTypes.Filename (Types (Summary (snd (run rt (h, NewDetectionResults mo) calls)))))"
    by (simp add: countersInRange_def)
  then show ?thesis
    using Filename_run[of rt "(h, NewDetectionResults mo)" calls]
    by (simp add: machineInt_wrapInt_id Types_New)
qed

lemma Filesize_fresh:
  "Filesize (Types (Summary (snd (run rt (h, NewDetectionResults mo) calls))))
     = wrapInt (intBits (intSize rt)) (int (length (filter (countedAs ''filesize'') calls)))"
proof -
  have "countersInRange rt (snd (run rt (h, NewDetectionResults mo) calls))"
    by (rule countersInRange_run) (simp add: countersInRange_New)
  then have "machineInt rt
      (Filesize (Types (Summary (snd (run rt (h, NewDetectionResults mo) calls)))))"
    by (simp add: countersInRange_def)
  then show ?thesis
    using Filesize_run[of rt "(h, NewDetectionResults mo)" calls]
    by (simp add: machineInt_wrapInt_id Types_New)
qed

text \<open>A count below \<open>2 ^ (bits - 1)\<close> is not changed by the wrap-around.\<close>

lemma wrapInt_count:
  assumes "n < 2 ^ (intBits p - 1)"
  shows "wrapInt (intBits p) (int n) = int n"
proof (rule wrapInt_id)
  show "- (2 ^ (intBits p - 1)) \<le> int n"
    by (rule order_trans[of _ 0]) simp_all
  have "int n < int (2 ^ (intBits p - 1))" using assms by (simp only: of_nat_less_iff)
  then show "int n < 2 ^ (intBits p - 1)" by simp
  show "0 < intBits p" by (rule intBits_pos)
qed

lemma HasFailures_run_fresh:
  assumes "length calls < 2 ^ (intBits (intSize rt) - 1)"
  shows "HasFailures (snd (run rt (h, NewDetectionResults mo) calls)) \<longleftrightarrow>
     (\<exists>call\<in>set calls. countedAs ''filesize'' call \<or> countedAs ''filename'' call
        \<or> countedAs ''filecontent'' call)"
proof -
  have bound: "length (filter P calls) < 2 ^ (intBits (intSize rt) - 1)" for P
    using assms length_filter_le[of P calls] by (rule le_less_trans[rotated])
  have pos: "0 < wrapInt (intBits (intSize rt)) (int (length (filter P calls)))
               \<longleftrightarrow> (\<exists>call\<in>set calls. P call)"
    for P
    by (simp add: wrapInt_count[OF bound[of P]] filter_empty_conv)
  show ?thesis
    unfolding HasFailures_def Filecontent_fresh Filename_fresh Filesize_fresh
    by (simp only: pos) blast
qed

lemma countedAs_reserved:
  "(countedAs ''filesize'' call \<or> countedAs ''filename'' call \<or> countedAs ''filecontent'' call)
     \<longleftrightarrow> (\<exists>p c m cs sv. call = FailCall p c m cs sv
            \<and> c \<in> {''filecontent'', ''filesize'', ''filename''})"
  by (cases call) auto

lemma HasFailures_Fail_other_category:
  "c \<notin> {''filecontent'', ''filesize'', ''filename''} \<Longrightarrow>
   HasFailures (snd (Fail rt (h, r) p c m cs sv)) \<longleftrightarrow> HasFailures r"
  by (simp add: HasFailures_def Types_Fail)

lemma findResultDetails_forLedgers:
  assumes "\<And>h0 rd. ResultsDetails.Filename (snd (body h0 rd)) = ResultsDetails.Filename rd"
  shows "findResultDetails (snd (forLedgers body h p rds)) p
           = map_option (\<lambda>rd. snd (body h rd)) (findResultDetails rds p)"
proof (induction rds)
  case Nil
  then show ?case by simp
next
  case (Cons rd rds)
  show ?case
  proof (cases "ResultsDetails.Filename rd = p")
    case True
    then show ?thesis using assms[of h rd] by (simp add: case_prod_beta)
  next
    case False
    then show ?thesis using Cons.IH by (simp add: case_prod_beta)
  qed
qed

lemma findResultDetails_append:
  "findResultDetails (rs @ rs') p =
     (case findResultDetails rs p of None \<Rightarrow> findResultDetails rs' p | Some rd \<Rightarrow> Some rd)"
  by (induction rs) auto

lemma recordDetails_Nil:
  "recordDetails g h c m cs sv [] = (h, [\<lparr> Category = c, Message = m, Commits = cs, Severity = sv \<rparr>])"
  by (simp add: recordDetails_def)

lemma GetFailures_Fail_same:
  "GetFailures (snd (Fail rt (h, r) p c m cs sv)) p
     = snd (recordDetails (growslice rt) h c m cs sv (GetFailures r p))"
proof (cases "p \<in> ResultsDetails.Filename ` set (Results r)")
  case True
  then obtain rd where rd: "findResultDetails (Results r) p = Some rd"
    using findResultDetails_None_iff[of "Results r" p] by auto
  have "findResultDetails (Results (snd (Fail rt (h, r) p c m cs sv))) p
          = Some (rd\<lparr>FailureList :=
                      snd (recordDetails (growslice rt) h c m cs sv (FailureList rd))\<rparr>)"
    using True rd
    by (simp add: Results_Fail findResultDetails_forLedgers case_prod_beta)
  then show ?thesis using rd by (simp add: GetFailures_def getResultDetailsForFilePath_def)
next
  case False
  then have none: "findResultDetails (Results r) p = None"
    by (simp add: findResultDetails_None_iff)
  then show ?thesis using False
    by (simp add: GetFailures_def getResultDetailsForFilePath_def Results_Fail
        findResultDetails_append recordDetails_Nil)
qed

lemma appendCommits_no_match:
  "\<not> list_ex (sameCategoryAndMessage c m) ds \<Longrightarrow> appendCommits g h c m cs ds = (h, ds)"
  by (induction ds) simp_all

lemma recordDetails_new:
  "\<not> list_ex (sameCategoryAndMessage c m) ds \<Longrightarrow>
   recordDetails g h c m cs sv ds
     = (h, ds @ [\<lparr> Category = c, Message = m, Commits = cs, Severity = sv \<rparr>])"
  by (simp add: recordDetails_def appendCommits_no_match)

lemma recordDetails_stores:
  "\<exists>d\<in>set (snd (recordDetails g h c m cs sv ds)). Category d = c \<and> Message d = m"
proof -
  have "(c, m) \<in> set (map (\<lambda>d. (Category d, Message d)) (snd (recordDetails g h c m cs sv ds)))"
    by (simp add: keys_recordDetails)
  then show ?thesis by auto
qed

text \<open>
  C3, with the bound that the counters need. After a sequence of fewer than
  \<open>2 ^ (w - 1)\<close> calls made on a fresh run state, where \<open>w\<close> is the width of \<open>int\<close>
  on the platform (32 or 64), \<open>HasFailures\<close> is true iff at least one of them is a
  \<open>Fail\<close> call with category \<open>filecontent\<close>, \<open>filesize\<close> or \<open>filename\<close>. A \<open>Fail\<close> call
  with any other category leaves
  \<open>HasFailures\<close> as it was, in every state, and afterwards the failure list of the path
  holds a finding with that category and message: the new finding, at the end of the
  list, when the list had none with that category and message.
\<close>

theorem HasFailures_iff_reserved_category:
  "(length calls < 2 ^ (intBits (intSize rt) - 1) \<longrightarrow>
      (HasFailures (snd (run rt (h, NewDetectionResults mo) calls)) \<longleftrightarrow>
         (\<exists>call\<in>set calls. \<exists>p c m cs sv. call = FailCall p c m cs sv
             \<and> c \<in> {''filecontent'', ''filesize'', ''filename''})))
   \<and> (c \<notin> {''filecontent'', ''filesize'', ''filename''} \<longrightarrow>
        (HasFailures (snd (Fail rt (h, r) p c m cs sv)) \<longleftrightarrow> HasFailures r)
        \<and> (\<exists>d\<in>set (GetFailures (snd (Fail rt (h, r) p c m cs sv)) p).
              Category d = c \<and> Message d = m)
        \<and> (\<not> list_ex (sameCategoryAndMessage c m) (GetFailures r p) \<longrightarrow>
             GetFailures (snd (Fail rt (h, r) p c m cs sv)) p
               = GetFailures r p
                 @ [\<lparr> Category = c, Message = m, Commits = cs, Severity = sv \<rparr>]))"
proof (intro conjI impI)
  assume "length calls < 2 ^ (intBits (intSize rt) - 1)"
  then show "HasFailures (snd (run rt (h, NewDetectionResults mo) calls)) \<longleftrightarrow>
         (\<exists>call\<in>set calls. \<exists>p c m cs sv. call = FailCall p c m cs sv
             \<and> c \<in> {''filecontent'', ''filesize'', ''filename''})"
    by (simp only: HasFailures_run_fresh countedAs_reserved)
next
  assume "c \<notin> {''filecontent'', ''filesize'', ''filename''}"
  then show "HasFailures (snd (Fail rt (h, r) p c m cs sv)) \<longleftrightarrow> HasFailures r"
    by (rule HasFailures_Fail_other_category)
next
  show "\<exists>d\<in>set (GetFailures (snd (Fail rt (h, r) p c m cs sv)) p).
              Category d = c \<and> Message d = m"
    unfolding GetFailures_Fail_same by (rule recordDetails_stores)
next
  assume "\<not> list_ex (sameCategoryAndMessage c m) (GetFailures r p)"
  then show "GetFailures (snd (Fail rt (h, r) p c m cs sv)) p
               = GetFailures r p
                 @ [\<lparr> Category = c, Message = m, Commits = cs, Severity = sv \<rparr>]"
    by (simp add: GetFailures_Fail_same recordDetails_new)
qed

text \<open>The claim as the spec states it, for every sequence of calls, fails when a counter
  wraps: where \<open>int\<close> has 32 bits, after \<open>2 ^ 31\<close> calls of \<open>Fail\<close> with category
  \<open>filecontent\<close> the counter is negative and \<open>HasFailures\<close> is false.\<close>

theorem HasFailures_after_wrap_counterexample:
  "\<not> (HasFailures
         (snd (run \<lparr> intSize = Bits32, growslice = \<lambda>oldcap n. n \<rparr> ([], NewDetectionResults ())
                 (replicate (2 ^ 31)
                    (FailCall ''a.pem'' ''filecontent'' ''secret key'' emptySlice Low))))
       \<longleftrightarrow> (\<exists>call\<in>set (replicate (2 ^ 31)
                           (FailCall ''a.pem'' ''filecontent'' ''secret key'' emptySlice Low)).
              \<exists>p c m cs sv. call = FailCall p c m cs sv
                \<and> c \<in> {''filecontent'', ''filesize'', ''filename''}))"
proof -
  have "\<not> HasFailures
         (snd (run \<lparr> intSize = Bits32, growslice = \<lambda>oldcap n. n \<rparr> ([], NewDetectionResults ())
                 (replicate (2 ^ 31)
                    (FailCall ''a.pem'' ''filecontent'' ''secret key'' emptySlice Low))))"
    unfolding HasFailures_def Filecontent_fresh Filename_fresh Filesize_fresh
    by (simp add: wrapInt_def)
  moreover have "\<exists>call\<in>set (replicate (2 ^ 31)
                           (FailCall ''a.pem'' ''filecontent'' ''secret key'' emptySlice Low)).
              \<exists>p c m cs sv. call = FailCall p c m cs sv
                \<and> c \<in> {''filecontent'', ''filesize'', ''filename''}"
    by simp
  ultimately show ?thesis by blast
qed

theorem HasFailures_iff_reserved_category_witness:
  "HasFailures (snd (run \<lparr> intSize = Bits64, growslice = \<lambda>oldcap n. n \<rparr> ([], NewDetectionResults ())
      [FailCall ''a.txt'' ''secrets'' ''token'' emptySlice Low,
       FailCall ''b.txt'' ''filesize'' ''too big'' emptySlice High]))
   \<and> \<not> HasFailures (snd (run \<lparr> intSize = Bits64, growslice = \<lambda>oldcap n. n \<rparr>
      ([], NewDetectionResults ())
      [FailCall ''a.txt'' ''secrets'' ''token'' emptySlice Low,
       WarnCall ''b.txt'' ''filesize'' ''w'' emptySlice Low]))
   \<and> \<not> HasFailures (snd (Fail \<lparr> intSize = Bits64, growslice = \<lambda>oldcap n. n \<rparr>
      ([], NewDetectionResults ())
      ''a.txt'' ''secrets'' ''token'' emptySlice Low))
   \<and> GetFailures (snd (Fail \<lparr> intSize = Bits64, growslice = \<lambda>oldcap n. n \<rparr>
      ([], NewDetectionResults ())
      ''a.txt'' ''secrets'' ''token'' emptySlice Low)) ''a.txt''
       = [\<lparr> Category = ''secrets'', Message = ''token'', Commits = emptySlice, Severity = Low \<rparr>]"
  using HasFailures_iff_reserved_category
    [where mo = "()" and rt = "\<lparr> intSize = Bits64, growslice = \<lambda>oldcap n. n \<rparr>" and h = "[]"
       and c = "''secrets''" and r = "NewDetectionResults ()"
       and p = "''a.txt''" and m = "''token''" and cs = emptySlice and sv = Low
       and calls = "[FailCall ''a.txt'' ''secrets'' ''token'' emptySlice Low,
                     FailCall ''b.txt'' ''filesize'' ''too big'' emptySlice High]"]
    HasFailures_iff_reserved_category
    [where mo = "()" and rt = "\<lparr> intSize = Bits64, growslice = \<lambda>oldcap n. n \<rparr>" and h = "[]"
       and c = "''secrets''" and r = "NewDetectionResults ()"
       and p = "''a.txt''" and m = "''token''" and cs = emptySlice and sv = Low
       and calls = "[FailCall ''a.txt'' ''secrets'' ''token'' emptySlice Low,
                     WarnCall ''b.txt'' ''filesize'' ''w'' emptySlice Low]"]
  by (simp add: run_eval HasFailures_def)

lemma addIgnore_idem: "addIgnore c (addIgnore c rd) = addIgnore c rd"
  by (simp add: addIgnore_def ignoreDetails_def)

lemma Filename_addIgnore: "ResultsDetails.Filename (addIgnore c rd) = ResultsDetails.Filename rd"
  by (simp add: addIgnore_def)

lemma Results_Ignore_twice: "Results (Ignore rt (Ignore rt r p c) p c) = Results (Ignore rt r p c)"
proof (cases "p \<in> ResultsDetails.Filename ` set (Results r)")
  case True
  have "map ResultsDetails.Filename
          (map (\<lambda>rd. if ResultsDetails.Filename rd = p then addIgnore c rd else rd) (Results r))
        = map ResultsDetails.Filename (Results r)"
    by (simp add: Filename_addIgnore)
  then have "map ResultsDetails.Filename (Results (Ignore rt r p c))
        = map ResultsDetails.Filename (Results r)"
    using True by (simp only: Results_Ignore if_True)
  then have "ResultsDetails.Filename ` set (Results (Ignore rt r p c))
        = ResultsDetails.Filename ` set (Results r)"
    by (metis set_map)
  then have "p \<in> ResultsDetails.Filename ` set (Results (Ignore rt r p c))"
    using True by simp
  then show ?thesis using True
    by (simp add: Results_Ignore[of rt "Ignore rt r p c"] Results_Ignore[of rt r] addIgnore_idem
        Filename_addIgnore cong: if_cong)
next
  case False
  then have "ResultsDetails.Filename rd \<noteq> p" if "rd \<in> set (Results r)" for rd
    using that by auto
  then have same: "map (\<lambda>rd. if ResultsDetails.Filename rd = p then addIgnore c rd else rd) (Results r)
          = Results r"
    by (simp add: map_idI)
  show ?thesis using False
    by (simp add: Results_Ignore[of rt "Ignore rt r p c"] Results_Ignore[of rt r] same addIgnore_def
        ignoreDetails_def)
qed

lemma findResultDetails_map_same:
  "(\<And>rd. ResultsDetails.Filename (f rd) = ResultsDetails.Filename rd) \<Longrightarrow>
   findResultDetails (map f rs) p = map_option f (findResultDetails rs p)"
  by (induction rs) auto

lemma lookup_Ignore_same:
  "getResultDetailsForFilePath (Ignore rt r p c) p =
     Some (case getResultDetailsForFilePath r p of
             None \<Rightarrow> \<lparr> Filename = p, FailureList = [], WarningList = [],
                       IgnoreList = [ignoreDetails c] \<rparr>
           | Some rd \<Rightarrow> addIgnore c rd)"
proof (cases "p \<in> ResultsDetails.Filename ` set (Results r)")
  case True
  then obtain rd where rd: "findResultDetails (Results r) p = Some rd"
    using findResultDetails_None_iff[of "Results r" p] by auto
  have fn: "ResultsDetails.Filename rd = p" using findResultDetails_Some[OF rd] by simp
  show ?thesis using True rd fn
    by (simp add: getResultDetailsForFilePath_def Results_Ignore findResultDetails_map_same
        Filename_addIgnore)
next
  case False
  then have none: "findResultDetails (Results r) p = None"
    by (simp add: findResultDetails_None_iff)
  then show ?thesis using False
    by (simp add: getResultDetailsForFilePath_def Results_Ignore findResultDetails_append)
qed

lemma category_in_lookup_Ignore:
  "getResultDetailsForFilePath (Ignore rt r p c) p = Some rd \<Longrightarrow> c \<in> Category ` set (IgnoreList rd)"
  by (auto simp: lookup_Ignore_same addIgnore_def ignoreDetails_def split: option.splits)

lemma count_distinct_key:
  "distinct (map f xs) \<Longrightarrow> y \<in> f ` set xs \<Longrightarrow> length (filter (\<lambda>x. f x = y) xs) = 1"
proof (induction xs)
  case Nil
  then show ?case by simp
next
  case (Cons x xs)
  show ?case
  proof (cases "f x = y")
    case True
    have "f x \<notin> f ` set xs" using Cons.prems(1) by simp
    then have "\<forall>z\<in>set xs. f z \<noteq> y" using True by blast
    then have "filter (\<lambda>x. f x = y) xs = []"
      by (simp add: filter_empty_conv)
    then show ?thesis using True by simp
  next
    case False
    then show ?thesis using Cons by auto
  qed
qed

lemma ignoresBlank_Ignore: "ignoresBlank r \<Longrightarrow> ignoresBlank (Ignore rt r p c)"
proof -
  assume blank: "ignoresBlank r"
  have new: "Message (ignoreDetails c) = [] \<and> Commits (ignoreDetails c) = emptySlice
      \<and> Severity (ignoreDetails c) = Low"
    by (simp add: ignoreDetails_def)
  have "\<forall>d\<in>set (IgnoreList rd'). Message d = [] \<and> Commits d = emptySlice \<and> Severity d = Low"
    if rd': "rd' \<in> set (Results (Ignore rt r p c))" for rd'
  proof (cases "p \<in> ResultsDetails.Filename ` set (Results r)")
    case True
    then obtain rd where "rd \<in> set (Results r)" "rd' = addIgnore c rd \<or> rd' = rd"
      using rd' unfolding Results_Ignore by (auto split: if_splits)
    then show ?thesis using blank new
      by (auto simp: ignoresBlank_def addIgnore_def split: if_splits)
  next
    case False
    then have "rd' \<in> set (Results r) \<or> IgnoreList rd' = [ignoreDetails c]"
      using rd' unfolding Results_Ignore by auto
    then show ?thesis using blank new by (auto simp: ignoresBlank_def)
  qed
  then show ?thesis by (simp add: ignoresBlank_def)
qed

lemma ignoresBlank_forLedgers:
  assumes blank: "ignoresBlank r"
    and body: "\<And>h0 rd. IgnoreList (snd (body h0 rd)) = IgnoreList rd"
    and new: "IgnoreList new = []"
    and res: "Results r' =
       (if p \<in> ResultsDetails.Filename ` set (Results r)
        then snd (forLedgers body h p (Results r))
        else Results r @ [new])"
  shows "ignoresBlank r'"
proof (cases "p \<in> ResultsDetails.Filename ` set (Results r)")
  case True
  have "\<forall>rd\<in>set (snd (forLedgers body h p (Results r))).
          \<forall>d\<in>set (IgnoreList rd). Message d = [] \<and> Commits d = emptySlice \<and> Severity d = Low"
    using blank by (intro forLedgers_preserves) (simp_all add: body ignoresBlank_def)
  then show ?thesis using True by (simp add: ignoresBlank_def res)
next
  case False
  then show ?thesis using blank new by (auto simp: ignoresBlank_def res)
qed

lemma ignoresBlank_Fail: "ignoresBlank r \<Longrightarrow> ignoresBlank (snd (Fail rt (h, r) p c m cs sv))"
  by (rule ignoresBlank_forLedgers[where p = p, OF _ _ _ Results_Fail])
    (simp_all add: case_prod_beta)

lemma ignoresBlank_Warn: "ignoresBlank r \<Longrightarrow> ignoresBlank (snd (Warn rt (h, r) p c m cs sv))"
  by (rule ignoresBlank_forLedgers[where p = p, OF _ _ _ Results_Warn])
    (simp_all add: case_prod_beta)

lemma ignoresBlank_applyCall: "ignoresBlank r \<Longrightarrow> ignoresBlank (snd (applyCall rt (h, r) call))"
  by (cases call) (simp_all add: ignoresBlank_Fail ignoresBlank_Warn ignoresBlank_Ignore)

lemma ignoresBlank_run: "ignoresBlank (snd w) \<Longrightarrow> ignoresBlank (snd (run rt w calls))"
proof (induction calls arbitrary: w)
  case Nil
  then show ?case by (simp add: run_Nil)
next
  case (Cons call calls)
  have "ignoresBlank (snd (applyCall rt w call))"
    using Cons.prems ignoresBlank_applyCall[of "snd w" rt "fst w" call] by simp
  then show ?case using Cons.IH by (simp add: run_Cons)
qed

lemma ignoresBlank_New: "ignoresBlank (NewDetectionResults mo)"
  by (simp add: ignoresBlank_def NewDetectionResults_def)

lemma lookup_Ignore_twice:
  "getResultDetailsForFilePath (Ignore rt (Ignore rt r p c) p c) p
     = getResultDetailsForFilePath (Ignore rt r p c) p"
  by (simp add: getResultDetailsForFilePath_def Results_Ignore_twice)

lemma one_ignore_entry:
  assumes "wellFormed r"
  shows "\<exists>rd. getResultDetailsForFilePath (Ignore rt (Ignore rt r p c) p c) p = Some rd
           \<and> length (filter (\<lambda>d. Category d = c) (IgnoreList rd)) = 1"
proof -
  obtain rd where rd: "getResultDetailsForFilePath (Ignore rt r p c) p = Some rd"
    by (simp add: lookup_Ignore_same)
  have "rd \<in> set (Results (Ignore rt r p c))"
    using rd findResultDetails_Some by (simp add: getResultDetailsForFilePath_def)
  moreover have "wellFormed (Ignore rt r p c)"
    using assms by (rule wellFormed_Ignore)
  ultimately have "distinct (map Category (IgnoreList rd))"
    by (simp add: wellFormed_def ledgerWellFormed_def)
  then have "length (filter (\<lambda>d. Category d = c) (IgnoreList rd)) = 1"
    using category_in_lookup_Ignore[OF rd] by (rule count_distinct_key)
  then show ?thesis using rd by (simp add: lookup_Ignore_twice)
qed


lemma Ignores_Ignore_twice:
  "Ignores (Types (Summary (Ignore rt (Ignore rt r p c) p c)))
     = wrapInt (intBits (intSize rt)) (Ignores (Types (Summary r)) + 2)"
proof -
  have "wrapInt (intBits (intSize rt))
          (wrapInt (intBits (intSize rt)) (Ignores (Types (Summary r)) + 1) + 1)
        = wrapInt (intBits (intSize rt)) (Ignores (Types (Summary r)) + 1 + 1)"
    by (rule wrapInt_add)
  then show ?thesis by (simp add: Types_Ignore increment_def add.commute)
qed

text \<open>
  C5. In the state of any run (any sequence of calls made on a fresh run state), two
  \<open>Ignore\<close> calls with the same path and category raise the ignore counter by 2, in the
  arithmetic of \<open>int\<close>: the sum wraps around, and it is the sum of the integers unless the
  counter is one of the two largest values of \<open>int\<close>. The second call leaves the ledgers
  as the first one left them, and the ignore list of the ledger of the path holds exactly
  one entry with that category. Every ignore entry of every ledger has an empty message
  and severity \<open>Low\<close>.
\<close>

theorem Ignore_twice_counts_calls:
  fixes rt :: runtime and h :: heap and mo :: 'mode and calls :: "call list"
    and p :: FilePath and c :: string
  defines "r \<equiv> snd (run rt (h, NewDetectionResults mo) calls)"
  shows "Ignores (Types (Summary (Ignore rt (Ignore rt r p c) p c)))
           = wrapInt (intBits (intSize rt)) (Ignores (Types (Summary r)) + 2)
   \<and> (Ignores (Types (Summary r)) + 2 < 2 ^ (intBits (intSize rt) - 1) \<longrightarrow>
        Ignores (Types (Summary (Ignore rt (Ignore rt r p c) p c)))
          = Ignores (Types (Summary r)) + 2)
   \<and> Results (Ignore rt (Ignore rt r p c) p c) = Results (Ignore rt r p c)
   \<and> (\<exists>rd. getResultDetailsForFilePath (Ignore rt (Ignore rt r p c) p c) p = Some rd
         \<and> length (filter (\<lambda>d. Category d = c) (IgnoreList rd)) = 1)
   \<and> (\<forall>rd\<in>set (Results (Ignore rt (Ignore rt r p c) p c)).
         \<forall>d\<in>set (IgnoreList rd). Message d = [] \<and> Severity d = Low)"
proof (intro conjI impI)
  show "Ignores (Types (Summary (Ignore rt (Ignore rt r p c) p c)))
           = wrapInt (intBits (intSize rt)) (Ignores (Types (Summary r)) + 2)"
    by (rule Ignores_Ignore_twice)
  have "countersInRange rt r"
    unfolding r_def by (rule countersInRange_run) (simp add: countersInRange_New)
  then have range: "machineInt rt (Ignores (Types (Summary r)))"
    by (simp add: countersInRange_def)
  show "Ignores (Types (Summary (Ignore rt (Ignore rt r p c) p c)))
          = Ignores (Types (Summary r)) + 2"
    if "Ignores (Types (Summary r)) + 2 < 2 ^ (intBits (intSize rt) - 1)"
  proof -
    have "- (2 ^ (intBits (intSize rt) - 1)) \<le> Ignores (Types (Summary r)) + 2"
      using range by (simp add: machineInt_def)
    then have "wrapInt (intBits (intSize rt)) (Ignores (Types (Summary r)) + 2)
                 = Ignores (Types (Summary r)) + 2"
      using that by (rule wrapInt_id) (rule intBits_pos)
    then show ?thesis by (simp only: Ignores_Ignore_twice)
  qed
  show "Results (Ignore rt (Ignore rt r p c) p c) = Results (Ignore rt r p c)"
    by (rule Results_Ignore_twice)
  have "wellFormed r"
    unfolding r_def by (rule wellFormed_run) (simp add: wellFormed_New)
  then show "\<exists>rd. getResultDetailsForFilePath (Ignore rt (Ignore rt r p c) p c) p = Some rd
         \<and> length (filter (\<lambda>d. Category d = c) (IgnoreList rd)) = 1"
    by (rule one_ignore_entry)
  have "ignoresBlank r"
    unfolding r_def by (rule ignoresBlank_run) (simp add: ignoresBlank_New)
  then have "ignoresBlank (Ignore rt (Ignore rt r p c) p c)"
    by (intro ignoresBlank_Ignore)
  then show "\<forall>rd\<in>set (Results (Ignore rt (Ignore rt r p c) p c)).
         \<forall>d\<in>set (IgnoreList rd). Message d = [] \<and> Severity d = Low"
    by (simp add: ignoresBlank_def)
qed

theorem Ignore_twice_counts_calls_witness:
  "Ignores (Types (Summary
       (Ignore \<lparr> intSize = Bits64, growslice = \<lambda>oldcap n. n \<rparr>
          (Ignore \<lparr> intSize = Bits64, growslice = \<lambda>oldcap n. n \<rparr>
             (snd (run \<lparr> intSize = Bits64, growslice = \<lambda>oldcap n. n \<rparr>
               ([[''c1'']], NewDetectionResults ())
               [FailCall ''a.pem'' ''filecontent'' ''secret key''
                  \<lparr> slicePtr = 0, sliceOff = 0, sliceLen = 1, sliceCap = 1 \<rparr> High,
                IgnoreCall ''b.txt'' ''filesize'']))
             ''b.txt'' ''secrets'')
          ''b.txt'' ''secrets''))) = 3
   \<and> Results
       (Ignore \<lparr> intSize = Bits64, growslice = \<lambda>oldcap n. n \<rparr>
          (Ignore \<lparr> intSize = Bits64, growslice = \<lambda>oldcap n. n \<rparr>
             (snd (run \<lparr> intSize = Bits64, growslice = \<lambda>oldcap n. n \<rparr>
               ([[''c1'']], NewDetectionResults ())
               [FailCall ''a.pem'' ''filecontent'' ''secret key''
                  \<lparr> slicePtr = 0, sliceOff = 0, sliceLen = 1, sliceCap = 1 \<rparr> High,
                IgnoreCall ''b.txt'' ''filesize'']))
             ''b.txt'' ''secrets'')
          ''b.txt'' ''secrets'')
     = [\<lparr> Filename = ''a.pem'',
          FailureList = [\<lparr> Category = ''filecontent'', Message = ''secret key'',
                            Commits = \<lparr> slicePtr = 0, sliceOff = 0, sliceLen = 1, sliceCap = 1 \<rparr>,
                            Severity = High \<rparr>],
          WarningList = [], IgnoreList = [] \<rparr>,
        \<lparr> Filename = ''b.txt'', FailureList = [], WarningList = [],
          IgnoreList = [\<lparr> Category = ''filesize'', Message = [], Commits = emptySlice,
                           Severity = Low \<rparr>,
                        \<lparr> Category = ''secrets'', Message = [], Commits = emptySlice,
                           Severity = Low \<rparr>] \<rparr>]"
  using Ignore_twice_counts_calls
    [where mo = "()" and rt = "\<lparr> intSize = Bits64, growslice = \<lambda>oldcap n. n \<rparr>"
       and h = "[[''c1'']]" and p = "''b.txt''" and c = "''secrets''"
       and calls = "[FailCall ''a.pem'' ''filecontent'' ''secret key''
                       \<lparr> slicePtr = 0, sliceOff = 0, sliceLen = 1, sliceCap = 1 \<rparr> High,
                     IgnoreCall ''b.txt'' ''filesize'']"]
  by (simp add: run_eval)

lemma findResultDetails_distinct:
  "distinct (map ResultsDetails.Filename rs) \<Longrightarrow> rd \<in> set rs \<Longrightarrow>
   findResultDetails rs (ResultsDetails.Filename rd) = Some rd"
  by (induction rs) (auto simp: image_iff)

text \<open>
  C7. \<open>GetFailures\<close> is a total function with no error result. For a path that no ledger
  of the run state has, it returns the empty sequence; otherwise it returns the failure
  list of the first ledger of \<open>Results\<close> with that path, which in a well-formed run state
  (every state of a run) is the only ledger with that path.
\<close>

theorem GetFailures_total:
  "(p \<notin> ResultsDetails.Filename ` set (Results r) \<longrightarrow> GetFailures r p = [])
   \<and> (\<forall>pre rd post.
         Results r = pre @ rd # post \<and> ResultsDetails.Filename rd = p
           \<and> p \<notin> ResultsDetails.Filename ` set pre
         \<longrightarrow> GetFailures r p = FailureList rd)
   \<and> (wellFormed r \<longrightarrow>
        (\<forall>rd\<in>set (Results r). GetFailures r (ResultsDetails.Filename rd) = FailureList rd))"
proof (intro conjI impI allI ballI)
  assume "p \<notin> ResultsDetails.Filename ` set (Results r)"
  then have "findResultDetails (Results r) p = None"
    by (simp add: findResultDetails_None_iff)
  then show "GetFailures r p = []"
    by (simp add: GetFailures_def getResultDetailsForFilePath_def)
next
  fix pre rd post
  assume "Results r = pre @ rd # post \<and> ResultsDetails.Filename rd = p
           \<and> p \<notin> ResultsDetails.Filename ` set pre"
  then have "findResultDetails (Results r) p = Some rd"
    using findResultDetails_first[of p pre rd post] by simp
  then show "GetFailures r p = FailureList rd"
    by (simp add: GetFailures_def getResultDetailsForFilePath_def)
next
  fix rd
  assume "wellFormed r" and "rd \<in> set (Results r)"
  then have "findResultDetails (Results r) (ResultsDetails.Filename rd) = Some rd"
    by (simp add: wellFormed_def findResultDetails_distinct)
  then show "GetFailures r (ResultsDetails.Filename rd) = FailureList rd"
    by (simp add: GetFailures_def getResultDetailsForFilePath_def)
qed

theorem GetFailures_total_witness:
  "GetFailures
     (snd (run \<lparr> intSize = Bits64, growslice = \<lambda>oldcap n. n \<rparr> ([], NewDetectionResults ())
             [FailCall ''a.pem'' ''filecontent'' ''secret key'' emptySlice High,
              FailCall ''b.txt'' ''filename'' ''odd name'' emptySlice Low,
              FailCall ''b.txt'' ''filesize'' ''too big'' emptySlice Medium]))
     ''c.go'' = []
   \<and> GetFailures
     (snd (run \<lparr> intSize = Bits64, growslice = \<lambda>oldcap n. n \<rparr> ([], NewDetectionResults ())
             [FailCall ''a.pem'' ''filecontent'' ''secret key'' emptySlice High,
              FailCall ''b.txt'' ''filename'' ''odd name'' emptySlice Low,
              FailCall ''b.txt'' ''filesize'' ''too big'' emptySlice Medium]))
     ''b.txt''
     = [\<lparr> Category = ''filename'', Message = ''odd name'', Commits = emptySlice,
           Severity = Low \<rparr>,
        \<lparr> Category = ''filesize'', Message = ''too big'', Commits = emptySlice,
           Severity = Medium \<rparr>]
   \<and> GetFailures
     (snd (run \<lparr> intSize = Bits64, growslice = \<lambda>oldcap n. n \<rparr> ([], NewDetectionResults ())
             [FailCall ''a.pem'' ''filecontent'' ''secret key'' emptySlice High,
              FailCall ''b.txt'' ''filename'' ''odd name'' emptySlice Low,
              FailCall ''b.txt'' ''filesize'' ''too big'' emptySlice Medium]))
     ''a.pem''
     = [\<lparr> Category = ''filecontent'', Message = ''secret key'', Commits = emptySlice,
           Severity = High \<rparr>]"
  using GetFailures_total
    [where p = "''c.go''"
       and r = "snd (run \<lparr> intSize = Bits64, growslice = \<lambda>oldcap n. n \<rparr>
             ([], NewDetectionResults ())
             [FailCall ''a.pem'' ''filecontent'' ''secret key'' emptySlice High,
              FailCall ''b.txt'' ''filename'' ''odd name'' emptySlice Low,
              FailCall ''b.txt'' ''filesize'' ''too big'' emptySlice Medium])"]
    GetFailures_total
    [where p = "''b.txt''"
       and r = "snd (run \<lparr> intSize = Bits64, growslice = \<lambda>oldcap n. n \<rparr>
             ([], NewDetectionResults ())
             [FailCall ''a.pem'' ''filecontent'' ''secret key'' emptySlice High,
              FailCall ''b.txt'' ''filename'' ''odd name'' emptySlice Low,
              FailCall ''b.txt'' ''filesize'' ''too big'' emptySlice Medium])"]
  by (simp add: run_eval)

lemma reportRow_specRendered:
  "reportRow str p d = [p, specRendered (Message d), str (Severity d)]"
  by (simp add: reportRow_def specRendered_def Let_def drop_take)

text \<open>
  C4, in bytes. The rows of \<open>ReportFileFailures\<close> and \<open>ReportFileWarnings\<close> for a path
  with a ledger: one row per finding, in order, with the path, the rendered message and
  the text of the severity. A message of 150 bytes or fewer is rendered unmodified; a
  longer one as its first 75 bytes, a line break, the next 72 bytes and \<open>...\<close>.
\<close>

theorem report_rows_truncate_messages:
  assumes "getResultDetailsForFilePath r p = Some rd"
  shows "ReportFileFailures str r p
           = Inr (r, map (\<lambda>d. [p, specRendered (Message d), str (Severity d)]) (FailureList rd))
         \<and> ReportFileWarnings str r p
           = Inr (r, map (\<lambda>d. [p, specRendered (Message d), str (Severity d)]) (WarningList rd))"
  using assms
  by (simp add: ReportFileFailures_def ReportFileWarnings_def Let_def reportRow_specRendered)

theorem report_rows_truncate_messages_witness:
  "ReportFileFailures (\<lambda>s. ''sev'')
     (snd (run \<lparr> intSize = Bits64, growslice = \<lambda>oldcap n. n \<rparr>
        ([], NewDetectionResults ())
        [FailCall ''a.pem'' ''filecontent''
           (replicate 75 CHR ''a'' @ replicate 72 CHR ''b'' @ replicate 53 CHR ''c'') emptySlice High,
         WarnCall ''a.pem'' ''filecontent'' (replicate 150 CHR ''w'') emptySlice Low]))
     ''a.pem''
   = Inr (snd (run \<lparr> intSize = Bits64, growslice = \<lambda>oldcap n. n \<rparr>
        ([], NewDetectionResults ())
        [FailCall ''a.pem'' ''filecontent''
           (replicate 75 CHR ''a'' @ replicate 72 CHR ''b'' @ replicate 53 CHR ''c'') emptySlice High,
         WarnCall ''a.pem'' ''filecontent'' (replicate 150 CHR ''w'') emptySlice Low]),
          [[''a.pem'', replicate 75 CHR ''a'' @ [NL] @ replicate 72 CHR ''b'' @ ''...'', ''sev'']])
   \<and> ReportFileWarnings (\<lambda>s. ''sev'')
     (snd (run \<lparr> intSize = Bits64, growslice = \<lambda>oldcap n. n \<rparr>
        ([], NewDetectionResults ())
        [FailCall ''a.pem'' ''filecontent''
           (replicate 75 CHR ''a'' @ replicate 72 CHR ''b'' @ replicate 53 CHR ''c'') emptySlice High,
         WarnCall ''a.pem'' ''filecontent'' (replicate 150 CHR ''w'') emptySlice Low]))
     ''a.pem''
   = Inr (snd (run \<lparr> intSize = Bits64, growslice = \<lambda>oldcap n. n \<rparr>
        ([], NewDetectionResults ())
        [FailCall ''a.pem'' ''filecontent''
           (replicate 75 CHR ''a'' @ replicate 72 CHR ''b'' @ replicate 53 CHR ''c'') emptySlice High,
         WarnCall ''a.pem'' ''filecontent'' (replicate 150 CHR ''w'') emptySlice Low]),
          [[''a.pem'', replicate 150 CHR ''w'', ''sev'']])"
  using report_rows_truncate_messages
    [where str = "\<lambda>s. ''sev''" and p = "''a.pem''"
       and r = "snd (run \<lparr> intSize = Bits64, growslice = \<lambda>oldcap n. n \<rparr>
        ([], NewDetectionResults ())
        [FailCall ''a.pem'' ''filecontent''
           (replicate 75 CHR ''a'' @ replicate 72 CHR ''b'' @ replicate 53 CHR ''c'') emptySlice High,
         WarnCall ''a.pem'' ''filecontent'' (replicate 150 CHR ''w'') emptySlice Low])"
       and rd = "\<lparr> Filename = ''a.pem'',
          FailureList = [\<lparr> Category = ''filecontent'',
             Message = replicate 75 CHR ''a'' @ replicate 72 CHR ''b'' @ replicate 53 CHR ''c'',
             Commits = emptySlice, Severity = High \<rparr>],
          WarningList = [\<lparr> Category = ''filecontent'', Message = replicate 150 CHR ''w'',
             Commits = emptySlice, Severity = Low \<rparr>], IgnoreList = [] \<rparr>"]
  by (simp add: run_eval specRendered_def)

text \<open>The claim as the spec states it, in characters, fails for text that is not
  single-byte: a message of 76 characters of two bytes each (\<open>U+00E9\<close>, bytes \<open>C3 A9\<close>)
  has fewer than 150 characters and 152 bytes, and is rendered cut, with the line break
  between the two bytes of its 38th character.\<close>

theorem report_rows_characters_counterexample:
  "characterCount (concat (replicate 76 [CHR 0xC3, CHR 0xA9])) = 76
   \<and> length (concat (replicate 76 [CHR 0xC3, CHR 0xA9])) = 152
   \<and> ReportFileFailures (\<lambda>s. ''sev'')
        (snd (run \<lparr> intSize = Bits64, growslice = \<lambda>oldcap n. n \<rparr>
        ([], NewDetectionResults ())
        [FailCall ''a.pem'' ''filecontent''
           (concat (replicate 76 [CHR 0xC3, CHR 0xA9])) emptySlice High]))
        ''a.pem''
      = Inr (snd (run \<lparr> intSize = Bits64, growslice = \<lambda>oldcap n. n \<rparr>
        ([], NewDetectionResults ())
        [FailCall ''a.pem'' ''filecontent''
           (concat (replicate 76 [CHR 0xC3, CHR 0xA9])) emptySlice High]),
             [[''a.pem'',
               concat (replicate 37 [CHR 0xC3, CHR 0xA9]) @ [CHR 0xC3] @ [NL] @ [CHR 0xA9]
                 @ concat (replicate 35 [CHR 0xC3, CHR 0xA9]) @ [CHR 0xC3] @ ''...'',
               ''sev'']])
   \<and> concat (replicate 37 [CHR 0xC3, CHR 0xA9]) @ [CHR 0xC3] @ [NL] @ [CHR 0xA9]
         @ concat (replicate 35 [CHR 0xC3, CHR 0xA9]) @ [CHR 0xC3] @ ''...''
       \<noteq> concat (replicate 76 [CHR 0xC3, CHR 0xA9])"
  by code_simp

lemma ReportFileFailures_state:
  "ReportFileFailures str r p = Inr (r', data) \<Longrightarrow> r' = r"
  by (auto simp: ReportFileFailures_def Let_def split: option.splits)

lemma ReportFileWarnings_state:
  "ReportFileWarnings str r p = Inr (r', data) \<Longrightarrow> r' = r"
  by (auto simp: ReportFileWarnings_def Let_def split: option.splits)

lemma ReportFileFailures_present:
  "p \<in> ResultsDetails.Filename ` set (Results r) \<Longrightarrow>
   ReportFileFailures str r p = Inr (r, map (reportRow str p) (GetFailures r p))"
  using findResultDetails_None_iff[of "Results r" p]
  by (auto simp: ReportFileFailures_def getResultDetailsForFilePath_def GetFailures_def Let_def
      split: option.splits)

lemma ReportFileWarnings_present:
  "p \<in> ResultsDetails.Filename ` set (Results r) \<Longrightarrow>
   ReportFileWarnings str r p = Inr (r, map (reportRow str p) (firstWarnings r p))"
  using findResultDetails_None_iff[of "Results r" p]
  by (auto simp: ReportFileWarnings_def getResultDetailsForFilePath_def firstWarnings_def Let_def
      split: option.splits)

lemma Report_loop_closed:
  "set rds \<subseteq> set (Results r) \<Longrightarrow>
   Report_loop str r rds fps data
     = Inr (r,
            fps @ map ResultsDetails.Filename
                    (filter (\<lambda>rd. FailureList rd \<noteq> [] \<or> IgnoreList rd \<noteq> []) rds),
            data @ concat (map (\<lambda>rd. map (reportRow str (ResultsDetails.Filename rd))
                                        (GetFailures r (ResultsDetails.Filename rd)))
                             (filter (\<lambda>rd. FailureList rd \<noteq> [] \<or> IgnoreList rd \<noteq> []) rds)))"
proof (induction rds arbitrary: fps data)
  case Nil
  then show ?case by simp
next
  case (Cons rd rds)
  have rest: "set rds \<subseteq> set (Results r)" using Cons.prems by simp
  have "ResultsDetails.Filename rd \<in> ResultsDetails.Filename ` set (Results r)"
    using Cons.prems by simp
  then have fd: "ReportFileFailures str r (ResultsDetails.Filename rd)
      = Inr (r, map (reportRow str (ResultsDetails.Filename rd))
                  (GetFailures r (ResultsDetails.Filename rd)))"
    by (rule ReportFileFailures_present)
  show ?case
    by (simp add: fd Cons.IH[OF rest])
qed

lemma ReportWarnings_loop_closed:
  "set rds \<subseteq> set (Results r) \<Longrightarrow>
   ReportWarnings_loop str r rds fps data
     = Inr (r,
            fps @ map ResultsDetails.Filename (filter (\<lambda>rd. WarningList rd \<noteq> []) rds),
            data @ concat (map (\<lambda>rd. map (reportRow str (ResultsDetails.Filename rd))
                                        (firstWarnings r (ResultsDetails.Filename rd)))
                             (filter (\<lambda>rd. WarningList rd \<noteq> []) rds)))"
proof (induction rds arbitrary: fps data)
  case Nil
  then show ?case by simp
next
  case (Cons rd rds)
  have rest: "set rds \<subseteq> set (Results r)" using Cons.prems by simp
  have "ResultsDetails.Filename rd \<in> ResultsDetails.Filename ` set (Results r)"
    using Cons.prems by simp
  then have wd: "ReportFileWarnings str r (ResultsDetails.Filename rd)
      = Inr (r, map (reportRow str (ResultsDetails.Filename rd))
                  (firstWarnings r (ResultsDetails.Filename rd)))"
    by (rule ReportFileWarnings_present)
  show ?case
    by (simp add: wd Cons.IH[OF rest])
qed

lemma getUserConfirmation_loop_closed:
  "getUserConfirmation_loop configs ctx out confirmed
     = (out @ concat (map (\<lambda>config. [Stdout [NL], StdoutYaml [config],
                                       Prompted (confirmationQuestion config)]) configs),
        confirmed @ filter (\<lambda>config. Confirm ctx (confirmationQuestion config)) configs)"
proof (induction configs arbitrary: out confirmed)
  case Nil
  then show ?case by simp
next
  case (Cons config configs)
  show ?case
    by (cases "Confirm ctx (confirmationQuestion config)")
      (simp_all add: confirm_def Let_def Cons.IH confirmationQuestion_def GetFileName_def)
qed

lemma getUserConfirmation_closed:
  "getUserConfirmation configs ctx
     = (confirmationDialogue configs,
        filter (\<lambda>config. Confirm ctx (confirmationQuestion config)) configs)"
  by (simp add: getUserConfirmation_def getUserConfirmation_loop_closed confirmationDialogue_def)

lemma suggestTalismanRC_closed:
  "suggestTalismanRC sha goos r filePaths ctx
     = suggestionEffects goos (mode r) ctx (candidateEntries sha (mode r) filePaths)"
  by (simp add: suggestTalismanRC_def suggestionEffects_def Let_def getUserConfirmation_closed
      printTalismanIgnoreSuggestion_def)

lemma Report_closed:
  "Report str sha goos r ctx
     = Inr (r,
            if HasFailures r
            then [Stdout reportBanner,
                  TableRender [''File'', ''Errors'', ''Severity''] (failureTable str r),
                  Stdout [NL]]
                 @ suggestionEffects goos (mode r) ctx
                     (candidateEntries sha (mode r)
                        (UniqueItems (map ResultsDetails.Filename (reportedLedgers r))))
            else [],
            [])"
  by (simp add: Report_def Report_loop_closed Let_def failureTable_def reportedLedgers_def
      suggestTalismanRC_closed)

lemma ReportWarnings_closed:
  "ReportWarnings str r
     = Inr (r,
            if 0 < Warnings (Types (Summary r))
            then [Stdout warningsBanner,
                  TableRender [''File'', ''Warnings'', ''Severity''] (warningTable str r)]
            else [],
            if 0 < Warnings (Types (Summary r)) then reviewHint @ [NL] else [])"
  by (simp add: ReportWarnings_def ReportWarnings_loop_closed Let_def warningTable_def
      warnedLedgers_def)

lemma Report_state:
  "Report str sha goos r ctx = Inr (r', out, res) \<Longrightarrow> r' = r"
  by (simp add: Report_closed)

lemma ReportWarnings_state:
  "ReportWarnings str r = Inr (r', out, res) \<Longrightarrow> r' = r"
  by (simp add: ReportWarnings_closed)

lemmas report_eval =
  Report_def ReportWarnings_def ReportFileFailures_def ReportFileWarnings_def reportRow_def
  suggestTalismanRC_def candidateEntries_def BuildIgnoreConfig_def
  printTalismanIgnoreSuggestion_def getUserConfirmation_def confirm_def GetFileName_def
  HasFailures_def HasIgnores_def HasWarnings_def Successful_def

text \<open>
  C8. The reporting operations leave the run state as it was: the state returned by
  \<open>ReportFileFailures\<close>, \<open>ReportFileWarnings\<close>, \<open>ReportWarnings\<close> and \<open>Report\<close> is the
  state they were called on, so every stored finding keeps its message, commits and
  severity. The truncation of a long message is made on the loop variable and shows in
  the row only. None of them reads or writes a backing array of commits.
\<close>

theorem reporting_keeps_state:
  "(ReportFileFailures str r p = Inr (r', data) \<longrightarrow> r' = r)
   \<and> (ReportFileWarnings str r p = Inr (r', data) \<longrightarrow> r' = r)
   \<and> (ReportWarnings str r = Inr (r', out, res) \<longrightarrow> r' = r)
   \<and> (Report str sha goos r ctx = Inr (r', out, res) \<longrightarrow> r' = r)"
  using ReportFileFailures_state[of str r p r' data] ReportFileWarnings_state[of str r p r' data]
    ReportWarnings_state[of str r r' out res] Report_state[of str sha goos r ctx r' out res]
  by (intro conjI impI) assumption+

theorem reporting_keeps_state_witness:
  "ReportFileFailures (\<lambda>s. ''sev'')
     (snd (run \<lparr> intSize = Bits64, growslice = \<lambda>oldcap n. n \<rparr>
        ([], NewDetectionResults ())
        [FailCall ''a.pem'' ''filecontent'' (replicate 200 CHR ''x'') emptySlice High,
         WarnCall ''a.pem'' ''filecontent'' (replicate 200 CHR ''x'') emptySlice High]))
     ''a.pem''
   = Inr (snd (run \<lparr> intSize = Bits64, growslice = \<lambda>oldcap n. n \<rparr>
        ([], NewDetectionResults ())
        [FailCall ''a.pem'' ''filecontent'' (replicate 200 CHR ''x'') emptySlice High,
         WarnCall ''a.pem'' ''filecontent'' (replicate 200 CHR ''x'') emptySlice High]),
          [[''a.pem'', replicate 75 CHR ''x'' @ [NL] @ replicate 72 CHR ''x'' @ ''...'', ''sev'']])
   \<and> ReportFileWarnings (\<lambda>s. ''sev'')
     (snd (run \<lparr> intSize = Bits64, growslice = \<lambda>oldcap n. n \<rparr>
        ([], NewDetectionResults ())
        [FailCall ''a.pem'' ''filecontent'' (replicate 200 CHR ''x'') emptySlice High,
         WarnCall ''a.pem'' ''filecontent'' (replicate 200 CHR ''x'') emptySlice High]))
     ''a.pem''
   = Inr (snd (run \<lparr> intSize = Bits64, growslice = \<lambda>oldcap n. n \<rparr>
        ([], NewDetectionResults ())
        [FailCall ''a.pem'' ''filecontent'' (replicate 200 CHR ''x'') emptySlice High,
         WarnCall ''a.pem'' ''filecontent'' (replicate 200 CHR ''x'') emptySlice High]),
          [[''a.pem'', replicate 75 CHR ''x'' @ [NL] @ replicate 72 CHR ''x'' @ ''...'', ''sev'']])
   \<and> ReportWarnings (\<lambda>s. ''sev'')
     (snd (run \<lparr> intSize = Bits64, growslice = \<lambda>oldcap n. n \<rparr>
        ([], NewDetectionResults ())
        [FailCall ''a.pem'' ''filecontent'' (replicate 200 CHR ''x'') emptySlice High,
         WarnCall ''a.pem'' ''filecontent'' (replicate 200 CHR ''x'') emptySlice High]))
   = Inr (snd (run \<lparr> intSize = Bits64, growslice = \<lambda>oldcap n. n \<rparr>
        ([], NewDetectionResults ())
        [FailCall ''a.pem'' ''filecontent'' (replicate 200 CHR ''x'') emptySlice High,
         WarnCall ''a.pem'' ''filecontent'' (replicate 200 CHR ''x'') emptySlice High]),
          [Stdout warningsBanner,
           TableRender [''File'', ''Warnings'', ''Severity'']
             [[''a.pem'', replicate 75 CHR ''x'' @ [NL] @ replicate 72 CHR ''x'' @ ''...'', ''sev'']]],
          reviewHint @ [NL])
   \<and> Report (\<lambda>s. ''sev'') (\<lambda>ps. ''sum'') ''linux''
     (snd (run \<lparr> intSize = Bits64, growslice = \<lambda>oldcap n. n \<rparr>
        ([], NewDetectionResults ())
        [FailCall ''a.pem'' ''filecontent'' (replicate 200 CHR ''x'') emptySlice High,
         WarnCall ''a.pem'' ''filecontent'' (replicate 200 CHR ''x'') emptySlice High]))
     \<lparr> Interactive = False, Confirm = \<lambda>q. False \<rparr>
   = Inr (snd (run \<lparr> intSize = Bits64, growslice = \<lambda>oldcap n. n \<rparr>
        ([], NewDetectionResults ())
        [FailCall ''a.pem'' ''filecontent'' (replicate 200 CHR ''x'') emptySlice High,
         WarnCall ''a.pem'' ''filecontent'' (replicate 200 CHR ''x'') emptySlice High]),
          [Stdout reportBanner,
           TableRender [''File'', ''Errors'', ''Severity'']
             [[''a.pem'', replicate 75 CHR ''x'' @ [NL] @ replicate 72 CHR ''x'' @ ''...'', ''sev'']],
           Stdout [NL],
           Stdout (suggestString @ [NL]),
           StdoutYaml [\<lparr> entryFilePath = ''a.pem'', entryChecksum = ''sum'',
                          entryExtraContent = [] \<rparr>]],
          [])
   \<and> GetFailures
     (snd (run \<lparr> intSize = Bits64, growslice = \<lambda>oldcap n. n \<rparr>
        ([], NewDetectionResults ())
        [FailCall ''a.pem'' ''filecontent'' (replicate 200 CHR ''x'') emptySlice High,
         WarnCall ''a.pem'' ''filecontent'' (replicate 200 CHR ''x'') emptySlice High]))
     ''a.pem''
   = [\<lparr> Category = ''filecontent'', Message = replicate 200 CHR ''x'', Commits = emptySlice,
         Severity = High \<rparr>]"
  using reporting_keeps_state
    [where str = "\<lambda>s. ''sev''" and p = "''a.pem''" and sha = "\<lambda>ps. ''sum''"
       and goos = "''linux''" and ctx = "\<lparr> Interactive = False, Confirm = \<lambda>q. False \<rparr>"
       and r = "snd (run \<lparr> intSize = Bits64, growslice = \<lambda>oldcap n. n \<rparr>
        ([], NewDetectionResults ())
        [FailCall ''a.pem'' ''filecontent'' (replicate 200 CHR ''x'') emptySlice High,
         WarnCall ''a.pem'' ''filecontent'' (replicate 200 CHR ''x'') emptySlice High])"
       and r' = "snd (run \<lparr> intSize = Bits64, growslice = \<lambda>oldcap n. n \<rparr>
        ([], NewDetectionResults ())
        [FailCall ''a.pem'' ''filecontent'' (replicate 200 CHR ''x'') emptySlice High,
         WarnCall ''a.pem'' ''filecontent'' (replicate 200 CHR ''x'') emptySlice High])"
       and data = "[[''a.pem'', replicate 75 CHR ''x'' @ [NL] @ replicate 72 CHR ''x'' @ ''...'', ''sev'']]"
       and res = "[]"
       and out = "[Stdout reportBanner,
           TableRender [''File'', ''Errors'', ''Severity'']
             [[''a.pem'', replicate 75 CHR ''x'' @ [NL] @ replicate 72 CHR ''x'' @ ''...'', ''sev'']],
           Stdout [NL],
           Stdout (suggestString @ [NL]),
           StdoutYaml [\<lparr> entryFilePath = ''a.pem'', entryChecksum = ''sum'',
                          entryExtraContent = [] \<rparr>]]"]
    reporting_keeps_state
    [where str = "\<lambda>s. ''sev''" and p = "''a.pem''" and sha = "\<lambda>ps. ''sum''"
       and goos = "''linux''" and ctx = "\<lparr> Interactive = False, Confirm = \<lambda>q. False \<rparr>"
       and r = "snd (run \<lparr> intSize = Bits64, growslice = \<lambda>oldcap n. n \<rparr>
        ([], NewDetectionResults ())
        [FailCall ''a.pem'' ''filecontent'' (replicate 200 CHR ''x'') emptySlice High,
         WarnCall ''a.pem'' ''filecontent'' (replicate 200 CHR ''x'') emptySlice High])"
       and r' = "snd (run \<lparr> intSize = Bits64, growslice = \<lambda>oldcap n. n \<rparr>
        ([], NewDetectionResults ())
        [FailCall ''a.pem'' ''filecontent'' (replicate 200 CHR ''x'') emptySlice High,
         WarnCall ''a.pem'' ''filecontent'' (replicate 200 CHR ''x'') emptySlice High])"
       and data = "[[''a.pem'', replicate 75 CHR ''x'' @ [NL] @ replicate 72 CHR ''x'' @ ''...'', ''sev'']]"
       and res = "reviewHint @ [NL]"
       and out = "[Stdout warningsBanner,
           TableRender [''File'', ''Warnings'', ''Severity'']
             [[''a.pem'', replicate 75 CHR ''x'' @ [NL] @ replicate 72 CHR ''x'' @ ''...'', ''sev'']]]"]
  by (simp add: run_eval report_eval)

text \<open>
  C9. For a path with no ledger, \<open>ReportFileFailures\<close> and \<open>ReportFileWarnings\<close>
  dereference the nil pointer returned by \<open>getResultDetailsForFilePath\<close>, where
  \<open>GetFailures\<close> returns the empty list.
\<close>

theorem report_file_nil_dereference:
  assumes "getResultDetailsForFilePath r p = None"
  shows "ReportFileFailures str r p = Inl NilPointerDereference
         \<and> ReportFileWarnings str r p = Inl NilPointerDereference
         \<and> GetFailures r p = []"
  using assms by (simp add: ReportFileFailures_def ReportFileWarnings_def GetFailures_def)

theorem report_file_nil_dereference_witness:
  "getResultDetailsForFilePath
     (snd (run \<lparr> intSize = Bits64, growslice = \<lambda>oldcap n. n \<rparr>
        ([], NewDetectionResults ())
        [FailCall ''a.pem'' ''filecontent'' ''secret key'' emptySlice High])) ''b.txt''
     = None
   \<and> ReportFileFailures (\<lambda>s. ''sev'')
     (snd (run \<lparr> intSize = Bits64, growslice = \<lambda>oldcap n. n \<rparr>
        ([], NewDetectionResults ())
        [FailCall ''a.pem'' ''filecontent'' ''secret key'' emptySlice High])) ''b.txt''
     = Inl NilPointerDereference
   \<and> ReportFileWarnings (\<lambda>s. ''sev'')
     (snd (run \<lparr> intSize = Bits64, growslice = \<lambda>oldcap n. n \<rparr>
        ([], NewDetectionResults ())
        [FailCall ''a.pem'' ''filecontent'' ''secret key'' emptySlice High])) ''b.txt''
     = Inl NilPointerDereference
   \<and> GetFailures
     (snd (run \<lparr> intSize = Bits64, growslice = \<lambda>oldcap n. n \<rparr>
        ([], NewDetectionResults ())
        [FailCall ''a.pem'' ''filecontent'' ''secret key'' emptySlice High])) ''b.txt''
     = []"
  using report_file_nil_dereference
    [where str = "\<lambda>s. ''sev''" and p = "''b.txt''"
       and r = "snd (run \<lparr> intSize = Bits64, growslice = \<lambda>oldcap n. n \<rparr>
        ([], NewDetectionResults ())
        [FailCall ''a.pem'' ''filecontent'' ''secret key'' emptySlice High])"]
  by (simp add: run_eval)

text \<open>The warning counter after a run of \<open>n\<close> calls of \<open>Warn\<close> on a fresh run state.\<close>

lemma run_replicate_Suc:
  "run rt w (replicate (Suc n) call) = run rt (applyCall rt w call) (replicate n call)"
  by (simp add: run_Cons)

lemma Warnings_replicate:
  "wrapInt (intBits (intSize rt))
       (Warnings (Types (Summary (snd (run rt w (replicate n (WarnCall p c m cs sv)))))))
     = wrapInt (intBits (intSize rt)) (Warnings (Types (Summary (snd w))) + int n)"
proof (induction n arbitrary: w)
  case 0
  then show ?case by (simp add: run_Nil)
next
  case (Suc n)
  have step: "wrapInt (intBits (intSize rt))
        (Warnings (Types (Summary (snd (applyCall rt w (WarnCall p c m cs sv))))))
      = wrapInt (intBits (intSize rt)) (Warnings (Types (Summary (snd w))) + 1)"
    by (cases w) (simp add: Types_Warn increment_def wrapInt_idem)
  show ?case
    using wrapInt_step[OF step Suc.IH[of "applyCall rt w (WarnCall p c m cs sv)"]]
    by (simp only: run_replicate_Suc of_nat_Suc add.commute[of "int n" 1])
qed

lemma Warnings_fresh_replicate:
  "Warnings (Types (Summary (snd (run rt (h, NewDetectionResults mo)
                                    (replicate n (WarnCall p c m cs sv))))))
     = wrapInt (intBits (intSize rt)) (int n)"
proof -
  have "countersInRange rt (snd (run rt (h, NewDetectionResults mo)
                                   (replicate n (WarnCall p c m cs sv))))"
    by (rule countersInRange_run) (simp add: countersInRange_New)
  then have "machineInt rt (Warnings (Types (Summary (snd (run rt (h, NewDetectionResults mo)
                                    (replicate n (WarnCall p c m cs sv)))))))"
    by (simp add: countersInRange_def)
  then show ?thesis
    using Warnings_replicate[of rt "(h, NewDetectionResults mo)" n p c m cs sv]
    by (simp add: machineInt_wrapInt_id Types_New)
qed

text \<open>
  C10, as the code has it. In every run state and with every prompt context, \<open>Report\<close>
  returns (it meets no nil pointer: it asks \<open>ReportFileFailures\<close> about paths of ledgers
  only), its result is the empty string, and the banner, the table and what the
  suggestion workflow prints, asks and stores are its effects, made only when
  \<open>HasFailures\<close> holds. \<open>ReportWarnings\<close> prints the banner and the table and returns the
  review hint followed by a line break when the warning counter is greater than zero;
  otherwise it prints nothing and returns the empty string. The rows of the tables are
  printed, never returned.
\<close>

theorem Report_returns_empty_string:
  "Report str sha goos r ctx
     = Inr (r,
            if HasFailures r
            then [Stdout reportBanner,
                  TableRender [''File'', ''Errors'', ''Severity''] (failureTable str r),
                  Stdout [NL]]
                 @ suggestionEffects goos (mode r) ctx
                     (candidateEntries sha (mode r)
                        (UniqueItems (map ResultsDetails.Filename (reportedLedgers r))))
            else [],
            [])
   \<and> ReportWarnings str r
     = Inr (r,
            if 0 < Warnings (Types (Summary r))
            then [Stdout warningsBanner,
                  TableRender [''File'', ''Warnings'', ''Severity''] (warningTable str r)]
            else [],
            if 0 < Warnings (Types (Summary r)) then reviewHint @ [NL] else [])
   \<and> (\<forall>r' out res. ReportWarnings str r = Inr (r', out, res) \<longrightarrow>
         (res \<noteq> [] \<longleftrightarrow> 0 < Warnings (Types (Summary r))))"
proof (intro conjI allI impI)
  show "Report str sha goos r ctx
     = Inr (r,
            if HasFailures r
            then [Stdout reportBanner,
                  TableRender [''File'', ''Errors'', ''Severity''] (failureTable str r),
                  Stdout [NL]]
                 @ suggestionEffects goos (mode r) ctx
                     (candidateEntries sha (mode r)
                        (UniqueItems (map ResultsDetails.Filename (reportedLedgers r))))
            else [],
            [])"
    by (rule Report_closed)
  show "ReportWarnings str r
     = Inr (r,
            if 0 < Warnings (Types (Summary r))
            then [Stdout warningsBanner,
                  TableRender [''File'', ''Warnings'', ''Severity''] (warningTable str r)]
            else [],
            if 0 < Warnings (Types (Summary r)) then reviewHint @ [NL] else [])"
    by (rule ReportWarnings_closed)
next
  fix r' out res
  assume "ReportWarnings str r = Inr (r', out, res)"
  then have "res = (if 0 < Warnings (Types (Summary r)) then reviewHint @ [NL] else [])"
    by (auto simp: ReportWarnings_closed)
  then show "res \<noteq> [] \<longleftrightarrow> 0 < Warnings (Types (Summary r))"
    by simp
qed

text \<open>The claim as stated, with "nonzero", fails where the counter is negative: with the
  counter at \<open>-1\<close>, \<open>ReportWarnings\<close> prints nothing and returns the empty string. A run
  reaches such a state where \<open>int\<close> has 32 bits: after \<open>2 ^ 31\<close> calls of \<open>Warn\<close> the
  counter has wrapped around to \<open>- (2 ^ 31)\<close>.\<close>

theorem ReportWarnings_nonzero_counterexample:
  "Warnings (Types (Summary
      ((NewDetectionResults ())
          \<lparr>Summary := \<lparr> Types = \<lparr> Filecontent = 0, Filesize = 0, FailureTypes.Filename = 0,
                                     Warnings = - 1, Ignores = 0 \<rparr> \<rparr>\<rparr>))) \<noteq> 0
   \<and> ReportWarnings (\<lambda>s. ''sev'')
      ((NewDetectionResults ())
          \<lparr>Summary := \<lparr> Types = \<lparr> Filecontent = 0, Filesize = 0, FailureTypes.Filename = 0,
                                     Warnings = - 1, Ignores = 0 \<rparr> \<rparr>\<rparr>)
     = Inr (((NewDetectionResults ())
          \<lparr>Summary := \<lparr> Types = \<lparr> Filecontent = 0, Filesize = 0, FailureTypes.Filename = 0,
                                     Warnings = - 1, Ignores = 0 \<rparr> \<rparr>\<rparr>),
            [], [])
   \<and> Warnings (Types (Summary
        (snd (run \<lparr> intSize = Bits32, growslice = \<lambda>oldcap n. n \<rparr> ([], NewDetectionResults ())
                (replicate (2 ^ 31) (WarnCall ''b.txt'' ''filename'' ''odd name'' emptySlice Low))))))
       = - (2 ^ 31)
   \<and> ReportWarnings (\<lambda>s. ''sev'')
        (snd (run \<lparr> intSize = Bits32, growslice = \<lambda>oldcap n. n \<rparr> ([], NewDetectionResults ())
                (replicate (2 ^ 31) (WarnCall ''b.txt'' ''filename'' ''odd name'' emptySlice Low))))
     = Inr (snd (run \<lparr> intSize = Bits32, growslice = \<lambda>oldcap n. n \<rparr> ([], NewDetectionResults ())
                (replicate (2 ^ 31) (WarnCall ''b.txt'' ''filename'' ''odd name'' emptySlice Low))),
            [], [])"
proof (intro conjI)
  show "Warnings (Types (Summary
      ((NewDetectionResults ())
          \<lparr>Summary := \<lparr> Types = \<lparr> Filecontent = 0, Filesize = 0, FailureTypes.Filename = 0,
                                     Warnings = - 1, Ignores = 0 \<rparr> \<rparr>\<rparr>))) \<noteq> 0"
    by simp
  show "ReportWarnings (\<lambda>s. ''sev'')
      ((NewDetectionResults ())
          \<lparr>Summary := \<lparr> Types = \<lparr> Filecontent = 0, Filesize = 0, FailureTypes.Filename = 0,
                                     Warnings = - 1, Ignores = 0 \<rparr> \<rparr>\<rparr>)
     = Inr (((NewDetectionResults ())
          \<lparr>Summary := \<lparr> Types = \<lparr> Filecontent = 0, Filesize = 0, FailureTypes.Filename = 0,
                                     Warnings = - 1, Ignores = 0 \<rparr> \<rparr>\<rparr>),
            [], [])"
    by (simp add: ReportWarnings_closed)
  show w: "Warnings (Types (Summary
        (snd (run \<lparr> intSize = Bits32, growslice = \<lambda>oldcap n. n \<rparr> ([], NewDetectionResults ())
                (replicate (2 ^ 31) (WarnCall ''b.txt'' ''filename'' ''odd name'' emptySlice Low))))))
       = - (2 ^ 31)"
    by (simp add: Warnings_fresh_replicate wrapInt_def)
  show "ReportWarnings (\<lambda>s. ''sev'')
        (snd (run \<lparr> intSize = Bits32, growslice = \<lambda>oldcap n. n \<rparr> ([], NewDetectionResults ())
                (replicate (2 ^ 31) (WarnCall ''b.txt'' ''filename'' ''odd name'' emptySlice Low))))
     = Inr (snd (run \<lparr> intSize = Bits32, growslice = \<lambda>oldcap n. n \<rparr> ([], NewDetectionResults ())
                (replicate (2 ^ 31) (WarnCall ''b.txt'' ''filename'' ''odd name'' emptySlice Low))),
            [], [])"
    unfolding ReportWarnings_closed w by simp
qed

theorem Report_returns_empty_string_witness:
  "Report (\<lambda>s. ''sev'') (\<lambda>ps. ''sum'') ''linux''
     (snd (run \<lparr> intSize = Bits64, growslice = \<lambda>oldcap n. n \<rparr>
        ([], NewDetectionResults ())
        [FailCall ''a.pem'' ''filecontent'' ''secret key'' emptySlice High,
         WarnCall ''b.txt'' ''filename'' ''odd name'' emptySlice Low]))
     \<lparr> Interactive = False, Confirm = \<lambda>q. False \<rparr>
   = Inr (snd (run \<lparr> intSize = Bits64, growslice = \<lambda>oldcap n. n \<rparr>
        ([], NewDetectionResults ())
        [FailCall ''a.pem'' ''filecontent'' ''secret key'' emptySlice High,
         WarnCall ''b.txt'' ''filename'' ''odd name'' emptySlice Low]),
          [Stdout reportBanner,
           TableRender [''File'', ''Errors'', ''Severity''] [[''a.pem'', ''secret key'', ''sev'']],
           Stdout [NL],
           Stdout (suggestString @ [NL]),
           StdoutYaml [\<lparr> entryFilePath = ''a.pem'', entryChecksum = ''sum'',
                          entryExtraContent = [] \<rparr>]],
          [])
   \<and> ReportWarnings (\<lambda>s. ''sev'')
     (snd (run \<lparr> intSize = Bits64, growslice = \<lambda>oldcap n. n \<rparr>
        ([], NewDetectionResults ())
        [FailCall ''a.pem'' ''filecontent'' ''secret key'' emptySlice High,
         WarnCall ''b.txt'' ''filename'' ''odd name'' emptySlice Low]))
   = Inr (snd (run \<lparr> intSize = Bits64, growslice = \<lambda>oldcap n. n \<rparr>
        ([], NewDetectionResults ())
        [FailCall ''a.pem'' ''filecontent'' ''secret key'' emptySlice High,
         WarnCall ''b.txt'' ''filename'' ''odd name'' emptySlice Low]),
          [Stdout warningsBanner,
           TableRender [''File'', ''Warnings'', ''Severity''] [[''b.txt'', ''odd name'', ''sev'']]],
          reviewHint @ [NL])
   \<and> Warnings (Types (Summary
     (snd (run \<lparr> intSize = Bits64, growslice = \<lambda>oldcap n. n \<rparr>
        ([], NewDetectionResults ())
        [FailCall ''a.pem'' ''filecontent'' ''secret key'' emptySlice High,
         WarnCall ''b.txt'' ''filename'' ''odd name'' emptySlice Low])))) = 1
   \<and> reviewHint @ [NL] \<noteq> []"
  using Report_returns_empty_string
    [where str = "\<lambda>s. ''sev''" and sha = "\<lambda>ps. ''sum''" and goos = "''linux''"
       and ctx = "\<lparr> Interactive = False, Confirm = \<lambda>q. False \<rparr>"
       and r = "snd (run \<lparr> intSize = Bits64, growslice = \<lambda>oldcap n. n \<rparr>
        ([], NewDetectionResults ())
        [FailCall ''a.pem'' ''filecontent'' ''secret key'' emptySlice High,
         WarnCall ''b.txt'' ''filename'' ''odd name'' emptySlice Low])"]
  by (simp add: run_eval report_eval)


lemma entriesOffered_append:
  "entriesOffered (a @ b) = entriesOffered a @ entriesOffered b"
  by (induction a rule: entriesOffered.induct) simp_all

lemma entriesOffered_confirmation_loop:
  "entriesOffered (fst (getUserConfirmation_loop configs ctx out confirmed))
     = entriesOffered out @ configs"
proof (induction configs arbitrary: out confirmed)
  case Nil
  then show ?case by simp
next
  case (Cons config configs)
  show ?case
    by (cases "Confirm ctx (''Do you want to add '' @ GetFileName config
                 @ '' with above checksum in talismanrc ?'')")
      (simp_all add: confirm_def Let_def Cons.IH entriesOffered_append)
qed

lemma entriesOffered_getUserConfirmation:
  fixes out :: "'mode effect list"
  assumes "getUserConfirmation configs ctx = (out, confirmed)"
  shows "entriesOffered out = configs"
proof -
  have "out = fst (getUserConfirmation configs ctx :: 'mode effect list \<times> IgnoreConfig list)"
    using assms by simp
  then show ?thesis
    unfolding getUserConfirmation_def by (simp add: entriesOffered_confirmation_loop)
qed

lemma entriesOffered_suggestTalismanRC:
  "entriesOffered (suggestTalismanRC sha goos r filePaths ctx)
     = candidateEntries sha (mode r) filePaths"
proof (cases "Interactive ctx \<and> goos \<noteq> ''windows''")
  case True
  then show ?thesis
    by (auto simp: suggestTalismanRC_def Let_def entriesOffered_append split: prod.splits
        dest: entriesOffered_getUserConfirmation)
next
  case False
  then show ?thesis
    by (auto simp: suggestTalismanRC_def Let_def printTalismanIgnoreSuggestion_def)
qed

text \<open>
  C2, as the code has it. In the end-to-end scenario \<open>Successful\<close> is false and
  \<open>HasIgnores\<close> is true; \<open>Report\<close> prints the banner and a table with one row, for
  \<open>a.pem\<close>, and then runs the suggestion workflow on the paths of both ledgers, so that
  two candidate entries are offered: one for \<open>a.pem\<close> and one for \<open>b.txt\<close>, in the order
  the ledgers were created. This holds with and without a prompt.
\<close>

theorem end_to_end_two_candidates:
  "\<not> Successful (endToEnd rt h mo commits sev) \<and> HasIgnores (endToEnd rt h mo commits sev)
   \<and> Report str sha goos (endToEnd rt h mo commits sev) ctx
       = Inr (endToEnd rt h mo commits sev,
              [Stdout reportBanner,
               TableRender [''File'', ''Errors'', ''Severity''] [[''a.pem'', ''secret key'', str sev]],
               Stdout [NL]]
              @ suggestTalismanRC sha goos (endToEnd rt h mo commits sev) [''a.pem'', ''b.txt''] ctx,
              [])
   \<and> entriesOffered
         (suggestTalismanRC sha goos (endToEnd rt h mo commits sev) [''a.pem'', ''b.txt''] ctx
            :: 'mode effect list)
       = [\<lparr> entryFilePath = ''a.pem'', entryChecksum = sha [''a.pem''], entryExtraContent = [] \<rparr>,
          \<lparr> entryFilePath = ''b.txt'', entryChecksum = sha [''b.txt''], entryExtraContent = [] \<rparr>]
   \<and> \<not> Successful (endToEndIgnoreFirst rt h mo commits sev)
   \<and> HasIgnores (endToEndIgnoreFirst rt h mo commits sev)
   \<and> Report str sha goos (endToEndIgnoreFirst rt h mo commits sev) ctx
       = Inr (endToEndIgnoreFirst rt h mo commits sev,
              [Stdout reportBanner,
               TableRender [''File'', ''Errors'', ''Severity''] [[''a.pem'', ''secret key'', str sev]],
               Stdout [NL]]
              @ suggestTalismanRC sha goos (endToEndIgnoreFirst rt h mo commits sev)
                  [''b.txt'', ''a.pem''] ctx,
              [])
   \<and> entriesOffered
         (suggestTalismanRC sha goos (endToEndIgnoreFirst rt h mo commits sev) [''b.txt'', ''a.pem''] ctx
            :: 'mode effect list)
       = [\<lparr> entryFilePath = ''b.txt'', entryChecksum = sha [''b.txt''], entryExtraContent = [] \<rparr>,
          \<lparr> entryFilePath = ''a.pem'', entryChecksum = sha [''a.pem''], entryExtraContent = [] \<rparr>]"
proof (intro conjI)
  show "\<not> Successful (endToEnd rt h mo commits sev)"
    by (simp add: endToEnd_def run_steps increment_zero Successful_def HasFailures_def)
  show "HasIgnores (endToEnd rt h mo commits sev)"
    by (simp add: endToEnd_def run_steps increment_zero HasIgnores_def)
  show "Report str sha goos (endToEnd rt h mo commits sev) ctx
       = Inr (endToEnd rt h mo commits sev,
              [Stdout reportBanner,
               TableRender [''File'', ''Errors'', ''Severity''] [[''a.pem'', ''secret key'', str sev]],
               Stdout [NL]]
              @ suggestTalismanRC sha goos (endToEnd rt h mo commits sev) [''a.pem'', ''b.txt''] ctx,
              [])"
    by (simp add: endToEnd_def run_steps increment_zero Report_def ReportFileFailures_def reportRow_def
        HasFailures_def)
  show "entriesOffered
         (suggestTalismanRC sha goos (endToEnd rt h mo commits sev) [''a.pem'', ''b.txt''] ctx
            :: 'mode effect list)
       = [\<lparr> entryFilePath = ''a.pem'', entryChecksum = sha [''a.pem''], entryExtraContent = [] \<rparr>,
          \<lparr> entryFilePath = ''b.txt'', entryChecksum = sha [''b.txt''], entryExtraContent = [] \<rparr>]"
    by (simp add: entriesOffered_suggestTalismanRC candidateEntries_def BuildIgnoreConfig_def)
  show "\<not> Successful (endToEndIgnoreFirst rt h mo commits sev)"
    by (simp add: endToEndIgnoreFirst_def run_steps increment_zero Successful_def HasFailures_def)
  show "HasIgnores (endToEndIgnoreFirst rt h mo commits sev)"
    by (simp add: endToEndIgnoreFirst_def run_steps increment_zero HasIgnores_def)
  show "Report str sha goos (endToEndIgnoreFirst rt h mo commits sev) ctx
       = Inr (endToEndIgnoreFirst rt h mo commits sev,
              [Stdout reportBanner,
               TableRender [''File'', ''Errors'', ''Severity''] [[''a.pem'', ''secret key'', str sev]],
               Stdout [NL]]
              @ suggestTalismanRC sha goos (endToEndIgnoreFirst rt h mo commits sev)
                  [''b.txt'', ''a.pem''] ctx,
              [])"
    by (simp add: endToEndIgnoreFirst_def run_steps increment_zero Report_def ReportFileFailures_def reportRow_def
        HasFailures_def)
  show "entriesOffered
         (suggestTalismanRC sha goos (endToEndIgnoreFirst rt h mo commits sev) [''b.txt'', ''a.pem''] ctx
            :: 'mode effect list)
       = [\<lparr> entryFilePath = ''b.txt'', entryChecksum = sha [''b.txt''], entryExtraContent = [] \<rparr>,
          \<lparr> entryFilePath = ''a.pem'', entryChecksum = sha [''a.pem''], entryExtraContent = [] \<rparr>]"
    by (simp add: entriesOffered_suggestTalismanRC candidateEntries_def BuildIgnoreConfig_def)
qed

text \<open>The claim as the spec states it, with exactly one candidate entry, for \<open>a.pem\<close>,
  fails: without a prompt, on Linux, the suggestion printed holds two entries.\<close>

theorem end_to_end_one_candidate_counterexample:
  "\<not> (\<not> Successful (endToEnd \<lparr> intSize = Bits64, growslice = \<lambda>oldcap n. n \<rparr> [[''c1'']] ()
               \<lparr> slicePtr = 0, sliceOff = 0, sliceLen = 1, sliceCap = 1 \<rparr> High) \<and> HasIgnores (endToEnd \<lparr> intSize = Bits64, growslice = \<lambda>oldcap n. n \<rparr> [[''c1'']] ()
               \<lparr> slicePtr = 0, sliceOff = 0, sliceLen = 1, sliceCap = 1 \<rparr> High)
       \<and> (\<exists>out. Report (\<lambda>s. ''sev'') (\<lambda>ps. ''sum'') ''linux''
            (endToEnd \<lparr> intSize = Bits64, growslice = \<lambda>oldcap n. n \<rparr> [[''c1'']] ()
               \<lparr> slicePtr = 0, sliceOff = 0, sliceLen = 1, sliceCap = 1 \<rparr> High)
                    \<lparr> Interactive = False, Confirm = \<lambda>q. False \<rparr>
                  = Inr (endToEnd \<lparr> intSize = Bits64, growslice = \<lambda>oldcap n. n \<rparr> [[''c1'']] ()
               \<lparr> slicePtr = 0, sliceOff = 0, sliceLen = 1, sliceCap = 1 \<rparr> High, out, [])
                \<and> (\<exists>header rows. TableRender header rows \<in> set out
                      \<and> (\<exists>row\<in>set rows. hd row = ''a.pem''))
                \<and> (\<exists>e. entriesOffered out = [e] \<and> entryFilePath e = ''a.pem'')))"
proof -
  have "Report (\<lambda>s. ''sev'') (\<lambda>ps. ''sum'') ''linux''
            (endToEnd \<lparr> intSize = Bits64, growslice = \<lambda>oldcap n. n \<rparr> [[''c1'']] ()
               \<lparr> slicePtr = 0, sliceOff = 0, sliceLen = 1, sliceCap = 1 \<rparr> High)
          \<lparr> Interactive = False, Confirm = \<lambda>q. False \<rparr>
        = Inr (endToEnd \<lparr> intSize = Bits64, growslice = \<lambda>oldcap n. n \<rparr> [[''c1'']] ()
               \<lparr> slicePtr = 0, sliceOff = 0, sliceLen = 1, sliceCap = 1 \<rparr> High,
            [Stdout reportBanner,
             TableRender [''File'', ''Errors'', ''Severity''] [[''a.pem'', ''secret key'', ''sev'']],
             Stdout [NL],
             Stdout (suggestString @ [NL]),
             StdoutYaml [\<lparr> entryFilePath = ''a.pem'', entryChecksum = ''sum'',
                            entryExtraContent = [] \<rparr>,
                         \<lparr> entryFilePath = ''b.txt'', entryChecksum = ''sum'',
                            entryExtraContent = [] \<rparr>]],
            [])"
    by (simp add: endToEnd_def run_eval report_eval)
  then show ?thesis by auto
qed

theorem end_to_end_two_candidates_witness:
  "Report (\<lambda>s. ''sev'') (\<lambda>ps. ''sum'') ''linux''
            (endToEnd \<lparr> intSize = Bits64, growslice = \<lambda>oldcap n. n \<rparr> [[''c1'']] ()
               \<lparr> slicePtr = 0, sliceOff = 0, sliceLen = 1, sliceCap = 1 \<rparr> High)
          \<lparr> Interactive = True, Confirm = \<lambda>q. q = ''Do you want to add b.txt with above checksum in talismanrc ?'' \<rparr>
        = Inr (endToEnd \<lparr> intSize = Bits64, growslice = \<lambda>oldcap n. n \<rparr> [[''c1'']] ()
               \<lparr> slicePtr = 0, sliceOff = 0, sliceLen = 1, sliceCap = 1 \<rparr> High,
            [Stdout reportBanner,
             TableRender [''File'', ''Errors'', ''Severity''] [[''a.pem'', ''secret key'', ''sev'']],
             Stdout [NL],
             Stdout (''==== Interactively adding to talismanrc ===='' @ [NL]),
             Stdout [NL],
             StdoutYaml [\<lparr> entryFilePath = ''a.pem'', entryChecksum = ''sum'',
                            entryExtraContent = [] \<rparr>],
             Prompted ''Do you want to add a.pem with above checksum in talismanrc ?'',
             Stdout [NL],
             StdoutYaml [\<lparr> entryFilePath = ''b.txt'', entryChecksum = ''sum'',
                            entryExtraContent = [] \<rparr>],
             Prompted ''Do you want to add b.txt with above checksum in talismanrc ?'',
             AddIgnores () [\<lparr> entryFilePath = ''b.txt'', entryChecksum = ''sum'',
                            entryExtraContent = [] \<rparr>],
             GitAddTalismanrc],
            [])"
  using end_to_end_two_candidates
    [where rt = "\<lparr> intSize = Bits64, growslice = \<lambda>oldcap n. n \<rparr>" and h = "[[''c1'']]" and mo = "()"
       and commits = "\<lparr> slicePtr = 0, sliceOff = 0, sliceLen = 1, sliceCap = 1 \<rparr>"
       and sev = High and str = "\<lambda>s. ''sev''"
       and sha = "\<lambda>ps. ''sum''" and goos = "''linux''"
       and ctx = "\<lparr> Interactive = True, Confirm = \<lambda>q. q = ''Do you want to add b.txt with above checksum in talismanrc ?'' \<rparr>"]
  by (simp add: endToEnd_def run_eval report_eval)


end
